theory Spec2Isabelle
  imports Complex_Main "HOL-Library.Monad_Syntax" "HOL-Library.Char_ord"
    "HOL-Library.List_Lexorder"
begin

text \<open>
  A model of the board editor: its geometry helpers, its element and camera types, the undo
  history with the handlers that change the elements, the normalizer for imported
  elements, and the import, wheel and key handlers, each definition following the source
  function of the same name.  The properties proved about them come after the
  definitions.
\<close>

section \<open>Geometry utilities\<close>

text \<open>
  JavaScript numbers are modelled as real numbers: every arithmetic operation is exact
  and every stored value is finite.  Rounding and signed zeros are outside this model;
  \<^verbatim>\<open>NaN\<close> and the infinities occur only as results of the conversion \<^verbatim>\<open>Number(...)\<close> in the
  import normalizer, which filters them out.
\<close>

record point =
  px :: real
  py :: real

record Camera =
  cam_x :: real
  cam_y :: real
  cam_scale :: real

record viewport =
  vp_w :: real
  vp_h :: real

definition CURVE_MIN_DRAW_GAP :: real where
  "CURVE_MIN_DRAW_GAP = 5"

definition CURVE_POINT_EPSILON :: real where
  "CURVE_POINT_EPSILON = 0.75"

definition HISTORY_LIMIT :: nat where
  "HISTORY_LIMIT = 50"

text \<open>\<^verbatim>\<open>const clamp = (v, a, b) => Math.min(b, Math.max(a, v))\<close>\<close>

definition clamp :: "real \<Rightarrow> real \<Rightarrow> real \<Rightarrow> real" where
  "clamp v a b = min b (max a v)"

text \<open>\<^verbatim>\<open>Math.hypot(a, b)\<close> over the reals.\<close>

definition hypot :: "real \<Rightarrow> real \<Rightarrow> real" where
  "hypot a b = sqrt (a * a + b * b)"

text \<open>
  \<^verbatim>\<open>sampleCubicPoints(start, control1, control2, end, segments = 24)\<close>: the body of the
  loop at index \<open>i\<close>, and the loop over \<open>i = 0 .. segments\<close>.
\<close>

definition cubicAt :: "point \<Rightarrow> point \<Rightarrow> point \<Rightarrow> point \<Rightarrow> nat \<Rightarrow> nat \<Rightarrow> point" where
  "cubicAt start control1 control2 end segments i =
     (let t = real i / real segments;
          mt = 1 - t;
          mt2 = mt * mt;
          t2 = t * t
      in \<lparr>px = mt2 * mt * px start + 3 * mt2 * t * px control1
               + 3 * mt * t2 * px control2 + t2 * t * px end,
          py = mt2 * mt * py start + 3 * mt2 * t * py control1
               + 3 * mt * t2 * py control2 + t2 * t * py end\<rparr>)"

definition sampleCubicPoints :: "point \<Rightarrow> point \<Rightarrow> point \<Rightarrow> point \<Rightarrow> nat \<Rightarrow> point list" where
  "sampleCubicPoints start control1 control2 end segments =
     map (cubicAt start control1 control2 end segments) [0 ..< Suc segments]"

text \<open>
  \<^verbatim>\<open>prunePoints(points, epsilon)\<close>.  \<open>pruneStep\<close> is one iteration of the \<^verbatim>\<open>for\<close> loop on
  the mutable array \<^verbatim>\<open>result\<close>: \<^verbatim>\<open>prev\<close> is its last entry (\<^verbatim>\<open>undefined\<close> when it is empty);
  the point is pushed when there is no \<^verbatim>\<open>prev\<close> or it lies farther than \<^verbatim>\<open>epsilon\<close> from it
  (\<open>beyond\<close> is the test \<^verbatim>\<open>Math.hypot(pt.x - prev.x, pt.y - prev.y) > epsilon\<close>), and
  otherwise it overwrites the last entry.  \<open>prunePass\<close> is the whole loop and
  \<open>prunePoints\<close> adds the final \<^verbatim>\<open>result.length >= 2 ? result : points.slice(0, 2)\<close>.
\<close>

definition beyond :: "real \<Rightarrow> point \<Rightarrow> point \<Rightarrow> bool" where
  "beyond epsilon prev pt = (hypot (px pt - px prev) (py pt - py prev) > epsilon)"

definition pruneStep :: "real \<Rightarrow> point list \<Rightarrow> point \<Rightarrow> point list" where
  "pruneStep epsilon result pt =
     (if result = [] \<or> beyond epsilon (last result) pt
      then result @ [\<lparr>px = px pt, py = py pt\<rparr>]
      else butlast result @ [\<lparr>px = px pt, py = py pt\<rparr>])"

definition prunePass :: "point list \<Rightarrow> real \<Rightarrow> point list" where
  "prunePass points epsilon = foldl (pruneStep epsilon) [] points"

definition prunePoints :: "point list \<Rightarrow> real \<Rightarrow> point list" where
  "prunePoints points epsilon =
     (let result = prunePass points epsilon
      in if length result \<ge> 2 then result else take 2 points)"

text \<open>
  A point list is \<open>spaced\<close> when each point lies farther than \<open>epsilon\<close> from its
  predecessor, with the distance test of \<open>pruneStep\<close>.
\<close>

fun spaced :: "real \<Rightarrow> point list \<Rightarrow> bool" where
  "spaced epsilon (p # q # ps) =
     (beyond epsilon p q \<and> spaced epsilon (q # ps))"
| "spaced epsilon ps = True"

text \<open>
  The screen-to-world map of \<^verbatim>\<open>worldFromPointer\<close> and of the first two lines of
  \<^verbatim>\<open>cameraZoomTo\<close>, at a given screen point (\<^verbatim>\<open>worldFromPointer\<close> returns the origin when
  the stage reports no pointer position).
\<close>

definition worldAt :: "point \<Rightarrow> Camera \<Rightarrow> viewport \<Rightarrow> point" where
  "worldAt p camera vp =
     \<lparr>px = (px p - vp_w vp / 2 - cam_x camera) / cam_scale camera,
      py = (py p - vp_h vp / 2 - cam_y camera) / cam_scale camera\<rparr>"

definition worldFromPointer :: "point option \<Rightarrow> Camera \<Rightarrow> viewport \<Rightarrow> point" where
  "worldFromPointer pointer camera vp =
     (case pointer of None \<Rightarrow> \<lparr>px = 0, py = 0\<rparr> | Some p \<Rightarrow> worldAt p camera vp)"

text \<open>
  The world-to-screen map is the transform of the world group in the render tree:
  \<^verbatim>\<open><Group x={vp.w / 2 + camera.x} y={vp.h / 2 + camera.y} scaleX={camera.scale}
  scaleY={camera.scale}>\<close>.
\<close>

definition screenAt :: "point \<Rightarrow> Camera \<Rightarrow> viewport \<Rightarrow> point" where
  "screenAt w camera vp =
     \<lparr>px = vp_w vp / 2 + cam_x camera + px w * cam_scale camera,
      py = vp_h vp / 2 + cam_y camera + py w * cam_scale camera\<rparr>"

definition cameraZoomTo :: "Camera \<Rightarrow> point \<Rightarrow> real \<Rightarrow> viewport \<Rightarrow> Camera" where
  "cameraZoomTo camera anchorScreen newScale vp =
     (let worldX = (px anchorScreen - vp_w vp / 2 - cam_x camera) / cam_scale camera;
          worldY = (py anchorScreen - vp_h vp / 2 - cam_y camera) / cam_scale camera
      in \<lparr>cam_x = px anchorScreen - vp_w vp / 2 - worldX * newScale,
          cam_y = py anchorScreen - vp_h vp / 2 - worldY * newScale,
          cam_scale = newScale\<rparr>)"

section \<open>Document model\<close>

text \<open>
  The element types \<^verbatim>\<open>PlayerEl\<close>, \<^verbatim>\<open>BallEl\<close>, \<^verbatim>\<open>ArrowStraightEl\<close> and \<^verbatim>\<open>ArrowCurveEl\<close>, one
  record each, and their union \<^verbatim>\<open>El\<close>, whose constructor is the \<^verbatim>\<open>kind\<close> discriminator.
  Colours are the strings the program stores (\<^verbatim>\<open>TeamColor\<close> and \<^verbatim>\<open>ArrowColor\<close> are unions
  of string literals, erased at run time); the optional \<^verbatim>\<open>avatar\<close> and \<^verbatim>\<open>name\<close> are
  \<open>None\<close> when absent or \<^verbatim>\<open>undefined\<close>.
\<close>

record PlayerEl =
  pl_id :: string
  pl_x :: real
  pl_y :: real
  pl_color :: string
  pl_avatar :: "string option"
  pl_name :: "string option"

record BallEl =
  bl_id :: string
  bl_x :: real
  bl_y :: real

record ArrowStraightEl =
  st_id :: string
  st_x1 :: real
  st_y1 :: real
  st_x2 :: real
  st_y2 :: real
  st_color :: string
  st_dashed :: bool

record ArrowCurveEl =
  cv_id :: string
  cv_points :: "point list"
  cv_color :: string
  cv_dashed :: bool

datatype El =
    Player PlayerEl
  | Ball BallEl
  | ArrowStraight ArrowStraightEl
  | ArrowCurve ArrowCurveEl

text \<open>\<^verbatim>\<open>el.id\<close> and \<^verbatim>\<open>el.kind\<close>.\<close>

fun el_id :: "El \<Rightarrow> string" where
  "el_id (Player p) = pl_id p"
| "el_id (Ball b) = bl_id b"
| "el_id (ArrowStraight a) = st_id a"
| "el_id (ArrowCurve c) = cv_id c"

fun el_kind :: "El \<Rightarrow> string" where
  "el_kind (Player p) = ''player''"
| "el_kind (Ball b) = ''ball''"
| "el_kind (ArrowStraight a) = ''arrow-straight''"
| "el_kind (ArrowCurve c) = ''arrow-curve''"

text \<open>
  \<^verbatim>\<open>cloneElements\<close>: a curve gets a fresh \<^verbatim>\<open>points\<close> array of fresh \<^verbatim>\<open>{x, y}\<close> objects, every
  other element a shallow copy \<^verbatim>\<open>{ ...el }\<close>.
\<close>

fun cloneEl :: "El \<Rightarrow> El" where
  "cloneEl (ArrowCurve c) =
     ArrowCurve (c\<lparr>cv_points := map (\<lambda>p. \<lparr>px = px p, py = py p\<rparr>) (cv_points c)\<rparr>)"
| "cloneEl el = el"

definition cloneElements :: "El list \<Rightarrow> El list" where
  "cloneElements elements = map cloneEl elements"

section \<open>History and element updates\<close>

text \<open>
  The component state that the modelled handlers read and write: the \<^verbatim>\<open>elements\<close> and
  \<^verbatim>\<open>camera\<close> state, \<^verbatim>\<open>historyRef.current\<close> (oldest snapshot first), \<^verbatim>\<open>isUndoingRef.current\<close>,
  \<^verbatim>\<open>selectedId\<close>, \<^verbatim>\<open>importDialogOpen\<close>, and the messages passed to \<^verbatim>\<open>alert\<close> so far.
  A state update \<^verbatim>\<open>setElements(f)\<close> is modelled as applying \<open>f\<close> once to the current
  elements.  No handler writes into an existing element object or \<^verbatim>\<open>points\<close> array (every
  update builds new objects, and every snapshot is cloned on its way into and out of the
  history), so elements are values here and two elements are deep-equal when they are
  equal.
\<close>

record state =
  elements :: "El list"
  camera :: Camera
  history :: "El list list"
  isUndoing :: bool
  selectedId :: "string option"
  importDialogOpen :: bool
  alerts :: "string list"

datatype js_error = TypeError | SyntaxError

text \<open>
  What calling an updater \<^verbatim>\<open>(prev) => El[]\<close> does: it throws, it returns \<^verbatim>\<open>prev\<close> itself, or
  it returns a newly allocated array.  The test \<^verbatim>\<open>next !== prev\<close> of \<^verbatim>\<open>applyElementsUpdate\<close>
  compares references, so it holds for every new array, whatever its contents.  The
  updaters of the program are built from \<^verbatim>\<open>concat\<close>, \<^verbatim>\<open>map\<close> and \<^verbatim>\<open>filter\<close>, which always
  allocate.
\<close>

datatype updater_result = Thrown js_error | Same | Fresh "El list"

text \<open>
  \<^verbatim>\<open>pushHistory\<close>: push a clone of the snapshot, then \<^verbatim>\<open>shift()\<close> the oldest entry away when
  the length exceeds \<^verbatim>\<open>HISTORY_LIMIT\<close>.
\<close>

definition pushHistory :: "El list \<Rightarrow> state \<Rightarrow> state" where
  "pushHistory snapshot s =
     (let cloned = cloneElements snapshot;
          pushed = history s @ [cloned]
      in s\<lparr>history := (if length pushed > HISTORY_LIMIT then tl pushed else pushed)\<rparr>)"

definition applyElementsUpdate :: "(El list \<Rightarrow> updater_result) \<Rightarrow> state \<Rightarrow> js_error + state" where
  "applyElementsUpdate updater s =
     (let prev = elements s
      in case updater prev of
           Thrown e \<Rightarrow> Inl e
         | Same \<Rightarrow> Inr s
         | Fresh next \<Rightarrow>
             Inr ((if \<not> isUndoing s then pushHistory prev s else s)\<lparr>elements := next\<rparr>))"

definition replaceElements :: "El list \<Rightarrow> state \<Rightarrow> state" where
  "replaceElements next s =
     ((if \<not> isUndoing s then pushHistory (elements s) s else s)
        \<lparr>elements := cloneElements next, selectedId := None\<rparr>)"

text \<open>
  \<^verbatim>\<open>undo\<close>: \<^verbatim>\<open>pop()\<close> the newest snapshot; return when there is none; otherwise install a
  clone of it with \<^verbatim>\<open>isUndoingRef\<close> raised around the state update.
\<close>

definition undo :: "state \<Rightarrow> state" where
  "undo s =
     (if history s = [] then s
      else let snapshot = last (history s);
               s1 = s\<lparr>history := butlast (history s)\<rparr>;
               s2 = s1\<lparr>isUndoing := True\<rparr>;
               s3 = s2\<lparr>elements := cloneElements snapshot\<rparr>
           in s3\<lparr>isUndoing := False\<rparr>)"

subsection \<open>Spawning and committing elements\<close>

text \<open>
  \<^verbatim>\<open>spawnAt(el, kind)\<close> appends \<^verbatim>\<open>{ id: uuidv4(), kind, ...el }\<close>; the new identifier is an
  argument of the model.  \<open>appendElement\<close> is the update \<^verbatim>\<open>els.concat(el)\<close> with which
  \<^verbatim>\<open>onStageMouseUp\<close> commits a drawn arrow.
\<close>

datatype spawn =
    SpawnPlayer real real string "string option" "string option"
  | SpawnBall real real

fun spawned :: "string \<Rightarrow> spawn \<Rightarrow> El" where
  "spawned newId (SpawnPlayer x y color avatar name) =
     Player \<lparr>pl_id = newId, pl_x = x, pl_y = y, pl_color = color,
             pl_avatar = avatar, pl_name = name\<rparr>"
| "spawned newId (SpawnBall x y) = Ball \<lparr>bl_id = newId, bl_x = x, bl_y = y\<rparr>"

definition spawnAt :: "string \<Rightarrow> spawn \<Rightarrow> state \<Rightarrow> js_error + state" where
  "spawnAt newId el = applyElementsUpdate (\<lambda>els. Fresh (els @ [spawned newId el]))"

definition appendElement :: "El \<Rightarrow> state \<Rightarrow> js_error + state" where
  "appendElement el = applyElementsUpdate (\<lambda>els. Fresh (els @ [el]))"

subsection \<open>Move handlers\<close>

text \<open>
  Each handler maps over the elements and rebuilds those whose \<^verbatim>\<open>id\<close> is the target; the
  casts \<^verbatim>\<open>e as PlayerEl\<close> and the like are erased at run time, so the rebuilt object depends
  on the kind the target really has.  The model keeps the fields that the element's own
  type declares: a property written under a name the type does not declare (such as \<^verbatim>\<open>x\<close>
  on an arrow) leaves the element as it was.  \<^verbatim>\<open>moveCurve\<close> calls \<^verbatim>\<open>points.map\<close>, which throws
  a \<^verbatim>\<open>TypeError\<close> on a target that has no \<^verbatim>\<open>points\<close> array.
\<close>

fun setXY :: "real \<Rightarrow> real \<Rightarrow> El \<Rightarrow> El" where
  "setXY x y (Player p) = Player (p\<lparr>pl_x := x, pl_y := y\<rparr>)"
| "setXY x y (Ball b) = Ball (b\<lparr>bl_x := x, bl_y := y\<rparr>)"
| "setXY x y el = el"

fun shiftStraight :: "real \<Rightarrow> real \<Rightarrow> El \<Rightarrow> El" where
  "shiftStraight dx dy (ArrowStraight a) =
     ArrowStraight (a\<lparr>st_x1 := st_x1 a + dx, st_y1 := st_y1 a + dy,
                      st_x2 := st_x2 a + dx, st_y2 := st_y2 a + dy\<rparr>)"
| "shiftStraight dx dy el = el"

fun shiftCurve :: "real \<Rightarrow> real \<Rightarrow> El \<Rightarrow> js_error + El" where
  "shiftCurve dx dy (ArrowCurve c) =
     Inr (ArrowCurve (c\<lparr>cv_points := map (\<lambda>p. \<lparr>px = px p + dx, py = py p + dy\<rparr>) (cv_points c)\<rparr>))"
| "shiftCurve dx dy el = Inl TypeError"

text \<open>
  \<^verbatim>\<open>els.map(f)\<close> for a callback that may throw: the first exception ends the whole call.
\<close>

fun mapThrowing :: "('a \<Rightarrow> js_error + 'b) \<Rightarrow> 'a list \<Rightarrow> js_error + 'b list" where
  "mapThrowing f [] = Inr []"
| "mapThrowing f (a # as) =
     (case f a of
        Inl e \<Rightarrow> Inl e
      | Inr b \<Rightarrow> (case mapThrowing f as of Inl e \<Rightarrow> Inl e | Inr bs \<Rightarrow> Inr (b # bs)))"

definition movePlayer :: "string \<Rightarrow> real \<Rightarrow> real \<Rightarrow> state \<Rightarrow> js_error + state" where
  "movePlayer ident x y =
     applyElementsUpdate (\<lambda>els. Fresh (map (\<lambda>e. if el_id e = ident then setXY x y e else e) els))"

definition moveBall :: "string \<Rightarrow> real \<Rightarrow> real \<Rightarrow> state \<Rightarrow> js_error + state" where
  "moveBall ident x y =
     applyElementsUpdate (\<lambda>els. Fresh (map (\<lambda>e. if el_id e = ident then setXY x y e else e) els))"

definition moveStraight :: "string \<Rightarrow> real \<Rightarrow> real \<Rightarrow> state \<Rightarrow> js_error + state" where
  "moveStraight ident dx dy =
     applyElementsUpdate
       (\<lambda>els. Fresh (map (\<lambda>e. if el_id e = ident then shiftStraight dx dy e else e) els))"

definition moveCurve :: "string \<Rightarrow> real \<Rightarrow> real \<Rightarrow> state \<Rightarrow> js_error + state" where
  "moveCurve ident dx dy =
     applyElementsUpdate
       (\<lambda>els. case mapThrowing (\<lambda>e. if el_id e = ident then shiftCurve dx dy e else Inr e) els of
                 Inl e \<Rightarrow> Thrown e
               | Inr next \<Rightarrow> Fresh next)"

subsection \<open>Context-menu updates\<close>

text \<open>
  A patch, as the context menu builds it, carries some of the properties \<^verbatim>\<open>color\<close>,
  \<^verbatim>\<open>avatar\<close>, \<^verbatim>\<open>name\<close> and \<^verbatim>\<open>dashed\<close>.  \<^verbatim>\<open>{ ...e, ...patch }\<close> overwrites the fields of \<open>e\<close>
  that the patch carries; as for the move handlers, a patched property that the type of
  \<open>e\<close> does not declare leaves the element as it was.
\<close>

record patch =
  pt_color :: "string option"
  pt_avatar :: "string option"
  pt_name :: "string option"
  pt_dashed :: "bool option"

definition orElse :: "'a option \<Rightarrow> 'a \<Rightarrow> 'a" where
  "orElse new old = (case new of None \<Rightarrow> old | Some v \<Rightarrow> v)"

definition orKeep :: "'a option \<Rightarrow> 'a option \<Rightarrow> 'a option" where
  "orKeep new old = (case new of None \<Rightarrow> old | Some v \<Rightarrow> Some v)"

fun applyPatch :: "patch \<Rightarrow> El \<Rightarrow> El" where
  "applyPatch pt (Player p) =
     Player (p\<lparr>pl_color := orElse (pt_color pt) (pl_color p),
               pl_avatar := orKeep (pt_avatar pt) (pl_avatar p),
               pl_name := orKeep (pt_name pt) (pl_name p)\<rparr>)"
| "applyPatch pt (Ball b) = Ball b"
| "applyPatch pt (ArrowStraight a) =
     ArrowStraight (a\<lparr>st_color := orElse (pt_color pt) (st_color a),
                      st_dashed := orElse (pt_dashed pt) (st_dashed a)\<rparr>)"
| "applyPatch pt (ArrowCurve c) =
     ArrowCurve (c\<lparr>cv_color := orElse (pt_color pt) (cv_color c),
                   cv_dashed := orElse (pt_dashed pt) (cv_dashed c)\<rparr>)"

definition updateElement :: "string \<Rightarrow> patch \<Rightarrow> state \<Rightarrow> js_error + state" where
  "updateElement ident pt =
     applyElementsUpdate (\<lambda>els. Fresh (map (\<lambda>e. if el_id e = ident then applyPatch pt e else e) els))"

definition deleteElement :: "string \<Rightarrow> state \<Rightarrow> js_error + state" where
  "deleteElement ident s =
     applyElementsUpdate (\<lambda>els. Fresh (filter (\<lambda>e. el_id e \<noteq> ident) els))
       (s\<lparr>selectedId := (if selectedId s = Some ident then None else selectedId s)\<rparr>)"

subsection \<open>Mutations and actions\<close>

text \<open>
  The operations that change the element sequence, as one type, and a user action: a
  mutation or an undo.  \<open>run\<close> performs a sequence of actions and stops at the first
  exception.
\<close>

datatype mutation =
    MovePlayer string real real
  | MoveBall string real real
  | MoveStraight string real real
  | MoveCurve string real real
  | SpawnAt string spawn
  | AppendElement El
  | UpdateElement string patch
  | DeleteElement string
  | ReplaceElements "El list"

fun mutate :: "mutation \<Rightarrow> state \<Rightarrow> js_error + state" where
  "mutate (MovePlayer ident x y) s = movePlayer ident x y s"
| "mutate (MoveBall ident x y) s = moveBall ident x y s"
| "mutate (MoveStraight ident dx dy) s = moveStraight ident dx dy s"
| "mutate (MoveCurve ident dx dy) s = moveCurve ident dx dy s"
| "mutate (SpawnAt newId el) s = spawnAt newId el s"
| "mutate (AppendElement el) s = appendElement el s"
| "mutate (UpdateElement ident pt) s = updateElement ident pt s"
| "mutate (DeleteElement ident) s = deleteElement ident s"
| "mutate (ReplaceElements next) s = Inr (replaceElements next s)"

datatype action = Mutation mutation | Undo

fun act :: "action \<Rightarrow> state \<Rightarrow> js_error + state" where
  "act (Mutation m) s = mutate m s"
| "act Undo s = Inr (undo s)"

fun run :: "action list \<Rightarrow> state \<Rightarrow> js_error + state" where
  "run [] s = Inr s"
| "run (a # as) s = (case act a s of Inl e \<Rightarrow> Inl e | Inr s' \<Rightarrow> run as s')"

section \<open>Untyped values and the import boundary\<close>

text \<open>
  \<^verbatim>\<open>normalizeImportedElements(raw: any[])\<close> receives whatever \<^verbatim>\<open>JSON.parse\<close> produced, so its
  input is modelled untyped: a value is \<^verbatim>\<open>undefined\<close> (the result of reading a property
  that is not there), \<^verbatim>\<open>null\<close>, a boolean, a number, a string, an array, or a plain object
  with its properties in insertion order (the names of the properties of a parsed object
  are distinct; a lookup takes the first entry of a name).  Numbers are finite reals, as
  everywhere in this model.
\<close>

datatype jsval =
    JUndefined
  | JNull
  | JBool bool
  | JNum real
  | JStr string
  | JArr "jsval list"
  | JObj "(string \<times> jsval) list"

text \<open>
  \<^verbatim>\<open>v.k\<close> for a property name \<open>k\<close> that only plain objects can carry (the names read by
  the program: \<^verbatim>\<open>kind\<close>, \<^verbatim>\<open>id\<close>, \<^verbatim>\<open>points\<close>, \<^verbatim>\<open>x\<close>, \<^verbatim>\<open>elements\<close>, ...), on a receiver that
  is neither \<^verbatim>\<open>null\<close> nor \<^verbatim>\<open>undefined\<close>; \<open>optProp\<close> is \<^verbatim>\<open>v?.k\<close>.
\<close>

fun getProp :: "jsval \<Rightarrow> string \<Rightarrow> jsval" where
  "getProp (JObj props) k = (case map_of props k of None \<Rightarrow> JUndefined | Some v \<Rightarrow> v)"
| "getProp v k = JUndefined"

definition nullish :: "jsval \<Rightarrow> bool" where
  "nullish v = (v = JUndefined \<or> v = JNull)"

definition optProp :: "jsval \<Rightarrow> string \<Rightarrow> jsval" where
  "optProp v k = (if nullish v then JUndefined else getProp v k)"

text \<open>\<^verbatim>\<open>typeof v\<close>, \<^verbatim>\<open>Boolean(v)\<close> and \<^verbatim>\<open>Array.isArray(v)\<close>.\<close>

fun typeOf :: "jsval \<Rightarrow> string" where
  "typeOf JUndefined = ''undefined''"
| "typeOf JNull = ''object''"
| "typeOf (JBool b) = ''boolean''"
| "typeOf (JNum r) = ''number''"
| "typeOf (JStr s) = ''string''"
| "typeOf (JArr vs) = ''object''"
| "typeOf (JObj props) = ''object''"

fun truthy :: "jsval \<Rightarrow> bool" where
  "truthy JUndefined = False"
| "truthy JNull = False"
| "truthy (JBool b) = b"
| "truthy (JNum r) = (r \<noteq> 0)"
| "truthy (JStr s) = (s \<noteq> [])"
| "truthy (JArr vs) = True"
| "truthy (JObj props) = True"

fun isArray :: "jsval \<Rightarrow> bool" where
  "isArray (JArr vs) = True"
| "isArray v = False"

text \<open>The entries of an array value (read only after \<^verbatim>\<open>Array.isArray\<close> has succeeded).\<close>

fun arrayItems :: "jsval \<Rightarrow> jsval list" where
  "arrayItems (JArr vs) = vs"
| "arrayItems v = []"

text \<open>
  \<^verbatim>\<open>Number(v)\<close> yields a finite number, \<^verbatim>\<open>NaN\<close> or an infinity, or throws.  On \<^verbatim>\<open>undefined\<close>,
  \<^verbatim>\<open>null\<close>, booleans and numbers the result is fixed by the language; on strings, arrays
  and objects it is the run-time library's conversion to a primitive and from a string to
  a number, which is not code of this program and is a parameter \<open>coerce\<close> of the model
  (it throws a \<^verbatim>\<open>TypeError\<close> on an object whose \<^verbatim>\<open>valueOf\<close> and \<^verbatim>\<open>toString\<close> properties are
  not functions).
\<close>

datatype jsnumber = Finite real | NaN | Infinite

fun toNumber :: "(jsval \<Rightarrow> js_error + jsnumber) \<Rightarrow> jsval \<Rightarrow> js_error + jsnumber" where
  "toNumber coerce JUndefined = Inr NaN"
| "toNumber coerce JNull = Inr (Finite 0)"
| "toNumber coerce (JBool b) = Inr (Finite (if b then 1 else 0))"
| "toNumber coerce (JNum r) = Inr (Finite r)"
| "toNumber coerce v = coerce v"

text \<open>Sequencing of two computations that may throw.\<close>

definition andThen :: "js_error + 'a \<Rightarrow> ('a \<Rightarrow> js_error + 'b) \<Rightarrow> js_error + 'b" where
  "andThen r f = (case r of Inl e \<Rightarrow> Inl e | Inr a \<Rightarrow> f a)"

text \<open>\<^verbatim>\<open>n || 0\<close> on a number, \<^verbatim>\<open>Number.isFinite(n)\<close>, and the real behind a finite number.\<close>

fun orZero :: "jsnumber \<Rightarrow> jsnumber" where
  "orZero NaN = Finite 0"
| "orZero n = n"

fun isFinite :: "jsnumber \<Rightarrow> bool" where
  "isFinite (Finite r) = True"
| "isFinite n = False"

fun finiteValue :: "jsnumber \<Rightarrow> real" where
  "finiteValue (Finite r) = r"
| "finiteValue n = 0"

text \<open>\<^verbatim>\<open>normalizeArrowColor(color: any)\<close>.\<close>

definition normalizeArrowColor :: "jsval \<Rightarrow> string" where
  "normalizeArrowColor color =
     (if color = JStr ''redLine'' \<or> color = JStr ''red'' then ''redLine''
      else if color = JStr ''blueLine'' \<or> color = JStr ''blue'' then ''blueLine''
      else if color = JStr ''yellow'' then ''yellow''
      else ''blueLine'')"

text \<open>
  Object construction: the literal \<^verbatim>\<open>{ x: p.x, y: p.y }\<close> of a point, the spread
  \<^verbatim>\<open>{ ...v }\<close> (the own enumerable properties: those of an object, the indices of an array
  or of a string, none for the other values), and \<^verbatim>\<open>{ ...v, k: w }\<close>, which overwrites
  \<open>k\<close> in place when it is there and appends it otherwise.
\<close>

definition pointJs :: "point \<Rightarrow> jsval" where
  "pointJs p = JObj [(''x'', JNum (px p)), (''y'', JNum (py p))]"

fun decimal :: "nat \<Rightarrow> string" where
  "decimal n =
     (if n < 10 then [char_of (48 + n)] else decimal (n div 10) @ [char_of (48 + n mod 10)])"

definition indexed :: "'a list \<Rightarrow> (string \<times> 'a) list" where
  "indexed vs = zip (map decimal [0 ..< length vs]) vs"

fun spread :: "jsval \<Rightarrow> (string \<times> jsval) list" where
  "spread (JObj props) = props"
| "spread (JArr vs) = indexed vs"
| "spread (JStr s) = indexed (map (\<lambda>c. JStr [c]) s)"
| "spread v = []"

fun setProp :: "string \<Rightarrow> jsval \<Rightarrow> (string \<times> jsval) list \<Rightarrow> (string \<times> jsval) list" where
  "setProp k w [] = [(k, w)]"
| "setProp k w ((k', v) # props) =
     (if k' = k then (k, w) # props else (k', v) # setProp k w props)"

text \<open>
  \<^verbatim>\<open>cloneElements\<close> on untyped elements, as \<^verbatim>\<open>normalizeImportedElements\<close> calls it on its
  mapped and filtered array.  Reading \<^verbatim>\<open>el.kind\<close> or \<^verbatim>\<open>p.x\<close> on \<^verbatim>\<open>null\<close> or \<^verbatim>\<open>undefined\<close>, and
  calling \<^verbatim>\<open>el.points.map\<close> when \<^verbatim>\<open>points\<close> is not an array, throw a \<^verbatim>\<open>TypeError\<close>.
\<close>

definition clonePointJs :: "jsval \<Rightarrow> js_error + jsval" where
  "clonePointJs p =
     (if nullish p then Inl TypeError
      else Inr (JObj [(''x'', getProp p ''x''), (''y'', getProp p ''y'')]))"

definition cloneElJs :: "jsval \<Rightarrow> js_error + jsval" where
  "cloneElJs el =
     (if nullish el then Inl TypeError
      else if getProp el ''kind'' = JStr ''arrow-curve'' then
        (case getProp el ''points'' of
           JArr ps \<Rightarrow>
             (case mapThrowing clonePointJs ps of
                Inl e \<Rightarrow> Inl e
              | Inr copies \<Rightarrow> Inr (JObj (setProp ''points'' (JArr copies) (spread el))))
         | _ \<Rightarrow> Inl TypeError)
      else Inr (JObj (spread el)))"

definition cloneElementsJs :: "jsval list \<Rightarrow> js_error + jsval list" where
  "cloneElementsJs els = mapThrowing cloneElJs els"

text \<open>
  The callback of \<^verbatim>\<open>raw.map\<close> in \<^verbatim>\<open>normalizeImportedElements\<close>, for one entry \<open>el\<close>; \<open>newId\<close>
  is what \<^verbatim>\<open>uuidv4()\<close> returns if this entry calls it.  \<open>JNull\<close> is the callback's \<^verbatim>\<open>null\<close>.
  \<open>importedPoints\<close> is the \<^verbatim>\<open>map\<close> and \<^verbatim>\<open>filter\<close> applied to \<^verbatim>\<open>el.points\<close> before pruning;
  the only step that can throw is \<^verbatim>\<open>Number\<close>.
\<close>

definition importedPoint :: "(jsval \<Rightarrow> js_error + jsnumber) \<Rightarrow> jsval \<Rightarrow> js_error + jsnumber \<times> jsnumber" where
  "importedPoint coerce p =
     andThen (toNumber coerce (optProp p ''x'')) (\<lambda>a.
     andThen (toNumber coerce (optProp p ''y'')) (\<lambda>b.
     Inr (orZero a, orZero b)))"

definition importedPoints :: "(jsval \<Rightarrow> js_error + jsnumber) \<Rightarrow> jsval list \<Rightarrow> js_error + point list" where
  "importedPoints coerce ps =
     andThen (mapThrowing (importedPoint coerce) ps) (\<lambda>pairs.
     Inr (map (\<lambda>(a, b). \<lparr>px = finiteValue a, py = finiteValue b\<rparr>)
            (filter (\<lambda>(a, b). isFinite a \<and> isFinite b) pairs)))"

definition withId :: "jsval \<Rightarrow> string \<Rightarrow> jsval" where
  "withId el newId = (if nullish (getProp el ''id'') then JStr newId else getProp el ''id'')"

definition curveJs :: "jsval \<Rightarrow> string \<Rightarrow> point list \<Rightarrow> jsval" where
  "curveJs el newId points =
     JObj [(''id'', withId el newId),
           (''kind'', JStr ''arrow-curve''),
           (''points'', JArr (map pointJs points)),
           (''color'', JStr (normalizeArrowColor (getProp el ''color''))),
           (''dashed'', JBool (truthy (getProp el ''dashed'')))]"

definition isNumber :: "jsval \<Rightarrow> bool" where
  "isNumber v = (typeOf v = ''number'')"

definition numberOf :: "jsval \<Rightarrow> real" where
  "numberOf v = (case v of JNum r \<Rightarrow> r | _ \<Rightarrow> 0)"

definition normalizeEntry :: "(jsval \<Rightarrow> js_error + jsnumber) \<Rightarrow> string \<Rightarrow> jsval \<Rightarrow> js_error + jsval" where
  "normalizeEntry coerce newId el =
     (if \<not> truthy el \<or> typeOf el \<noteq> ''object'' then Inr JNull
      else if getProp el ''kind'' = JStr ''arrow-curve'' then
        (if isArray (getProp el ''points'') \<and> length (arrayItems (getProp el ''points'')) \<ge> 2 then
           andThen (importedPoints coerce (arrayItems (getProp el ''points''))) (\<lambda>imported.
             (let points = prunePoints imported CURVE_POINT_EPSILON
              in Inr (if length points < 2 then JNull else curveJs el newId points)))
         else if isNumber (getProp el ''x1'') \<and> isNumber (getProp el ''y1'') \<and>
                 isNumber (getProp el ''x2'') \<and> isNumber (getProp el ''y2'') \<and>
                 isNumber (getProp el ''cx1'') \<and> isNumber (getProp el ''cy1'') \<and>
                 isNumber (getProp el ''cx2'') \<and> isNumber (getProp el ''cy2'') then
           (let points = prunePoints
                           (sampleCubicPoints
                              \<lparr>px = numberOf (getProp el ''x1''), py = numberOf (getProp el ''y1'')\<rparr>
                              \<lparr>px = numberOf (getProp el ''cx1''), py = numberOf (getProp el ''cy1'')\<rparr>
                              \<lparr>px = numberOf (getProp el ''cx2''), py = numberOf (getProp el ''cy2'')\<rparr>
                              \<lparr>px = numberOf (getProp el ''x2''), py = numberOf (getProp el ''y2'')\<rparr>
                              24)
                           CURVE_POINT_EPSILON
            in Inr (curveJs el newId points))
         else Inr JNull)
      else if getProp el ''kind'' = JStr ''arrow-straight'' then
        andThen (toNumber coerce (getProp el ''x1'')) (\<lambda>x1.
        andThen (toNumber coerce (getProp el ''y1'')) (\<lambda>y1.
        andThen (toNumber coerce (getProp el ''x2'')) (\<lambda>x2.
        andThen (toNumber coerce (getProp el ''y2'')) (\<lambda>y2.
          Inr (if isFinite x1 \<and> isFinite y1 \<and> isFinite x2 \<and> isFinite y2 then
                 JObj [(''id'', withId el newId),
                       (''kind'', JStr ''arrow-straight''),
                       (''x1'', JNum (finiteValue x1)),
                       (''y1'', JNum (finiteValue y1)),
                       (''x2'', JNum (finiteValue x2)),
                       (''y2'', JNum (finiteValue y2)),
                       (''color'', JStr (normalizeArrowColor (getProp el ''color''))),
                       (''dashed'', JBool (truthy (getProp el ''dashed'')))]
               else JNull)))))
      else Inr el)"

text \<open>
  \<^verbatim>\<open>normalizeImportedElements(raw)\<close>: map every entry, keep the truthy results, clone.  The
  identifier that \<^verbatim>\<open>uuidv4()\<close> hands to the entry at index \<open>i\<close> is \<open>uuidv4 i\<close>.
\<close>

definition mappedEntries ::
    "(jsval \<Rightarrow> js_error + jsnumber) \<Rightarrow> (nat \<Rightarrow> string) \<Rightarrow> jsval list \<Rightarrow> js_error + jsval list" where
  "mappedEntries coerce uuidv4 raw =
     mapThrowing (\<lambda>(i, el). normalizeEntry coerce (uuidv4 i) el) (enumerate 0 raw)"

definition normalizeImportedElements ::
    "(jsval \<Rightarrow> js_error + jsnumber) \<Rightarrow> (nat \<Rightarrow> string) \<Rightarrow> jsval list \<Rightarrow> js_error + jsval list" where
  "normalizeImportedElements coerce uuidv4 raw =
     andThen (mappedEntries coerce uuidv4 raw) (\<lambda>entries.
       (let mapped = filter truthy entries
        in cloneElementsJs mapped))"

section \<open>Export, import and camera handlers\<close>

text \<open>
  The value that \<^verbatim>\<open>JSON.parse(JSON.stringify(el))\<close> yields for an element: its properties in
  the order in which the program creates them, a property holding \<^verbatim>\<open>undefined\<close> left out
  (as \<^verbatim>\<open>JSON.stringify\<close> does).  \<^verbatim>\<open>JSON.stringify\<close> and \<^verbatim>\<open>JSON.parse\<close> belong to the run-time
  library; on finite numbers, strings, booleans, arrays and plain objects the round trip
  through text is the identity.
\<close>

definition optField :: "string \<Rightarrow> string option \<Rightarrow> (string \<times> jsval) list" where
  "optField k v = (case v of None \<Rightarrow> [] | Some s \<Rightarrow> [(k, JStr s)])"

fun toJson :: "El \<Rightarrow> jsval" where
  "toJson (Player p) =
     JObj ([(''id'', JStr (pl_id p)), (''kind'', JStr ''player''),
            (''x'', JNum (pl_x p)), (''y'', JNum (pl_y p)), (''color'', JStr (pl_color p))]
           @ optField ''avatar'' (pl_avatar p) @ optField ''name'' (pl_name p))"
| "toJson (Ball b) =
     JObj [(''id'', JStr (bl_id b)), (''kind'', JStr ''ball''),
           (''x'', JNum (bl_x b)), (''y'', JNum (bl_y b))]"
| "toJson (ArrowStraight a) =
     JObj [(''id'', JStr (st_id a)), (''kind'', JStr ''arrow-straight''),
           (''x1'', JNum (st_x1 a)), (''y1'', JNum (st_y1 a)),
           (''x2'', JNum (st_x2 a)), (''y2'', JNum (st_y2 a)),
           (''color'', JStr (st_color a)), (''dashed'', JBool (st_dashed a))]"
| "toJson (ArrowCurve c) =
     JObj [(''id'', JStr (cv_id c)), (''kind'', JStr ''arrow-curve''),
           (''points'', JArr (map pointJs (cv_points c))),
           (''color'', JStr (cv_color c)), (''dashed'', JBool (cv_dashed c))]"

definition cameraJs :: "Camera \<Rightarrow> jsval" where
  "cameraJs c = JObj [(''x'', JNum (cam_x c)), (''y'', JNum (cam_y c)),
                      (''scale'', JNum (cam_scale c))]"

text \<open>
  The typed state holds elements of type \<^verbatim>\<open>El\<close> and a \<^verbatim>\<open>Camera\<close>.  The import handler
  declares \<^verbatim>\<open>const parsed: BoardState = JSON.parse(importText)\<close> without checking it.
  \<open>asEl\<close> reads an untyped value as an element: it succeeds on exactly the values that
  \<open>toJson\<close> produces, and gives \<open>None\<close> for every other value (a property of the wrong
  type, a property the type does not declare, another order of the properties).
  \<open>asCamera\<close> reads the three numbers of a camera.
\<close>

fun asString :: "jsval \<Rightarrow> string option" where
  "asString (JStr s) = Some s"
| "asString v = None"

fun asNumber :: "jsval \<Rightarrow> real option" where
  "asNumber (JNum r) = Some r"
| "asNumber v = None"

fun asBool :: "jsval \<Rightarrow> bool option" where
  "asBool (JBool b) = Some b"
| "asBool v = None"

fun asOptString :: "jsval \<Rightarrow> string option option" where
  "asOptString JUndefined = Some None"
| "asOptString (JStr s) = Some (Some s)"
| "asOptString v = None"

definition asPoint :: "jsval \<Rightarrow> point option" where
  "asPoint v = do {
     a \<leftarrow> asNumber (optProp v ''x'');
     b \<leftarrow> asNumber (optProp v ''y'');
     Some \<lparr>px = a, py = b\<rparr>
   }"

fun asPoints :: "jsval \<Rightarrow> point list option" where
  "asPoints (JArr vs) = those (map asPoint vs)"
| "asPoints v = None"

definition asPlayer :: "jsval \<Rightarrow> El option" where
  "asPlayer v = do {
     i \<leftarrow> asString (getProp v ''id'');
     a \<leftarrow> asNumber (getProp v ''x'');
     b \<leftarrow> asNumber (getProp v ''y'');
     c \<leftarrow> asString (getProp v ''color'');
     av \<leftarrow> asOptString (getProp v ''avatar'');
     nm \<leftarrow> asOptString (getProp v ''name'');
     Some (Player \<lparr>pl_id = i, pl_x = a, pl_y = b, pl_color = c, pl_avatar = av, pl_name = nm\<rparr>)
   }"

definition asBall :: "jsval \<Rightarrow> El option" where
  "asBall v = do {
     i \<leftarrow> asString (getProp v ''id'');
     a \<leftarrow> asNumber (getProp v ''x'');
     b \<leftarrow> asNumber (getProp v ''y'');
     Some (Ball \<lparr>bl_id = i, bl_x = a, bl_y = b\<rparr>)
   }"

definition asStraight :: "jsval \<Rightarrow> El option" where
  "asStraight v = do {
     i \<leftarrow> asString (getProp v ''id'');
     a1 \<leftarrow> asNumber (getProp v ''x1'');
     b1 \<leftarrow> asNumber (getProp v ''y1'');
     a2 \<leftarrow> asNumber (getProp v ''x2'');
     b2 \<leftarrow> asNumber (getProp v ''y2'');
     c \<leftarrow> asString (getProp v ''color'');
     d \<leftarrow> asBool (getProp v ''dashed'');
     Some (ArrowStraight \<lparr>st_id = i, st_x1 = a1, st_y1 = b1, st_x2 = a2, st_y2 = b2,
                           st_color = c, st_dashed = d\<rparr>)
   }"

definition asCurve :: "jsval \<Rightarrow> El option" where
  "asCurve v = do {
     i \<leftarrow> asString (getProp v ''id'');
     ps \<leftarrow> asPoints (getProp v ''points'');
     c \<leftarrow> asString (getProp v ''color'');
     d \<leftarrow> asBool (getProp v ''dashed'');
     Some (ArrowCurve \<lparr>cv_id = i, cv_points = ps, cv_color = c, cv_dashed = d\<rparr>)
   }"

definition readEl :: "jsval \<Rightarrow> El option" where
  "readEl v =
     (if getProp v ''kind'' = JStr ''player'' then asPlayer v
      else if getProp v ''kind'' = JStr ''ball'' then asBall v
      else if getProp v ''kind'' = JStr ''arrow-straight'' then asStraight v
      else if getProp v ''kind'' = JStr ''arrow-curve'' then asCurve v
      else None)"

definition asEl :: "jsval \<Rightarrow> El option" where
  "asEl v =
     (case readEl v of
        None \<Rightarrow> None
      | Some e \<Rightarrow> if toJson e = v then Some e else None)"

definition asCamera :: "jsval \<Rightarrow> Camera option" where
  "asCamera v = do {
     a \<leftarrow> asNumber (optProp v ''x'');
     b \<leftarrow> asNumber (optProp v ''y'');
     sc \<leftarrow> asNumber (optProp v ''scale'');
     Some \<lparr>cam_x = a, cam_y = b, cam_scale = sc\<rparr>
   }"

text \<open>
  The \<^verbatim>\<open>onClick\<close> handler of the Load button.  \<open>loadAttempt\<close> is the body of its \<^verbatim>\<open>try\<close> block:
  \<^verbatim>\<open>JSON.parse\<close> (a parameter \<open>parse\<close> of the model, \<open>None\<close> when it throws its
  \<^verbatim>\<open>SyntaxError\<close>), \<^verbatim>\<open>parsed.elements ?? []\<close> (a \<^verbatim>\<open>TypeError\<close> when \<^verbatim>\<open>parsed\<close> is \<^verbatim>\<open>null\<close>),
  \<^verbatim>\<open>normalizeImportedElements\<close> (a \<^verbatim>\<open>TypeError\<close> from \<^verbatim>\<open>raw.map\<close> when that value is not an
  array, or from \<^verbatim>\<open>Number\<close>), \<^verbatim>\<open>replaceElements\<close>, \<^verbatim>\<open>setCamera(parsed.camera ?? { x: 0, y: 0, scale: 1 })\<close> and
  \<^verbatim>\<open>setImportDialogOpen(false)\<close>.  Every exception is thrown before the first state update.
  \<open>importLoad\<close> adds the \<^verbatim>\<open>catch\<close> block, \<^verbatim>\<open>alert("Invalid JSON")\<close>.  The result is \<open>None\<close>
  when the normalized elements or the camera do not inhabit their declared types, so that
  the typed state cannot hold them.
\<close>

definition orDefault :: "jsval \<Rightarrow> jsval \<Rightarrow> jsval" where
  "orDefault v d = (if nullish v then d else v)"

definition loadAttempt ::
    "(string \<Rightarrow> jsval option) \<Rightarrow> (jsval \<Rightarrow> js_error + jsnumber) \<Rightarrow> (nat \<Rightarrow> string) \<Rightarrow> string
      \<Rightarrow> state
      \<Rightarrow> js_error + state option" where
  "loadAttempt parse coerce uuidv4 importText s =
     (case parse importText of
        None \<Rightarrow> Inl SyntaxError
      | Some parsed \<Rightarrow>
          if nullish parsed then Inl TypeError
          else
            (case orDefault (getProp parsed ''elements'') (JArr []) of
               JArr raw \<Rightarrow>
                 (case normalizeImportedElements coerce uuidv4 raw of
                    Inl e \<Rightarrow> Inl e
                  | Inr normalized \<Rightarrow>
                      Inr (do {
                        els \<leftarrow> those (map asEl normalized);
                        cam \<leftarrow> asCamera (orDefault (getProp parsed ''camera'')
                                 (cameraJs \<lparr>cam_x = 0, cam_y = 0, cam_scale = 1\<rparr>));
                        Some ((replaceElements els s)\<lparr>camera := cam, importDialogOpen := False\<rparr>)
                      }))
             | _ \<Rightarrow> Inl TypeError))"

definition importLoad ::
    "(string \<Rightarrow> jsval option) \<Rightarrow> (jsval \<Rightarrow> js_error + jsnumber) \<Rightarrow> (nat \<Rightarrow> string) \<Rightarrow> string
      \<Rightarrow> state
      \<Rightarrow> state option" where
  "importLoad parse coerce uuidv4 importText s =
     (case loadAttempt parse coerce uuidv4 importText s of
        Inl e \<Rightarrow> Some (s\<lparr>alerts := alerts s @ [''Invalid JSON'']\<rparr>)
      | Inr result \<Rightarrow> result)"

text \<open>
  \<^verbatim>\<open>handleWheel\<close>: nothing happens without a pointer position; otherwise the current scale
  is divided (\<^verbatim>\<open>deltaY > 0\<close>) or multiplied by \<^verbatim>\<open>1.05\<close>, clamped to \<^verbatim>\<open>[0.2, 4]\<close>, and the camera
  zooms to it around the pointer.
\<close>

definition handleWheel :: "point option \<Rightarrow> real \<Rightarrow> viewport \<Rightarrow> state \<Rightarrow> state" where
  "handleWheel pointer deltaY vp s =
     (case pointer of
        None \<Rightarrow> s
      | Some p \<Rightarrow>
          (let scaleBy = 1.05;
               direction = (if deltaY > 0 then 1 else - 1 :: real);
               newScale = clamp (if direction > 0 then cam_scale (camera s) / scaleBy
                                 else cam_scale (camera s) * scaleBy) 0.2 4
           in s\<lparr>camera := cameraZoomTo (camera s) p newScale vp\<rparr>))"

text \<open>
  The digit keys in \<^verbatim>\<open>onKeyDown\<close>: for \<^verbatim>\<open>e.key >= "1" && e.key <= "5"\<close> (a comparison of
  strings) the camera zooms to \<^verbatim>\<open>scaleShortcut[e.key]\<close> around the centre of the viewport,
  provided the stage exists.  A key in that range without an entry in the table would make
  the new scale \<^verbatim>\<open>undefined\<close>, which a \<^verbatim>\<open>Camera\<close> cannot hold: the result is \<open>None\<close>.
\<close>

definition scaleShortcut :: "(string \<times> real) list" where
  "scaleShortcut = [(''1'', 1.25), (''2'', 1.5), (''3'', 2), (''4'', 2.25), (''5'', 2.5)]"

definition presetZoom :: "string \<Rightarrow> bool \<Rightarrow> viewport \<Rightarrow> state \<Rightarrow> state option" where
  "presetZoom key stageExists vp s =
     (if key \<ge> ''1'' \<and> key \<le> ''5'' then
        (if \<not> stageExists then Some s
         else case map_of scaleShortcut key of
                None \<Rightarrow> None
              | Some newScale \<Rightarrow>
                  (let center = \<lparr>px = vp_w vp / 2, py = vp_h vp / 2\<rparr>
                   in Some (s\<lparr>camera := cameraZoomTo (camera s) center newScale vp\<rparr>)))
      else Some s)"

text \<open>
  Well-formed elements in the sense of the round-trip property: arrows carry one of the
  three canonical colours and a curve has at least two points (coordinates are finite in
  this model).  An element is \<open>settledEl\<close> when it is not a curve, or its points are two, or
  each of its points lies farther than \<^verbatim>\<open>CURVE_POINT_EPSILON\<close> from its predecessor.
  \<open>reprunedEl\<close> simplifies the points of a curve once more.
\<close>

definition canonicalArrowColor :: "string \<Rightarrow> bool" where
  "canonicalArrowColor c = (c = ''redLine'' \<or> c = ''blueLine'' \<or> c = ''yellow'')"

fun wellFormedEl :: "El \<Rightarrow> bool" where
  "wellFormedEl (Player p) = True"
| "wellFormedEl (Ball b) = True"
| "wellFormedEl (ArrowStraight a) = canonicalArrowColor (st_color a)"
| "wellFormedEl (ArrowCurve c) = (length (cv_points c) \<ge> 2 \<and> canonicalArrowColor (cv_color c))"

fun settledEl :: "El \<Rightarrow> bool" where
  "settledEl (ArrowCurve c) =
     (length (cv_points c) = 2 \<or> spaced CURVE_POINT_EPSILON (cv_points c))"
| "settledEl el = True"

fun reprunedEl :: "El \<Rightarrow> El" where
  "reprunedEl (ArrowCurve c) =
     ArrowCurve (c\<lparr>cv_points := prunePoints (cv_points c) CURVE_POINT_EPSILON\<rparr>)"
| "reprunedEl el = el"

section \<open>Example documents\<close>

text \<open>Concrete elements and states at which the theorems below are instantiated.\<close>

definition demoBall :: El where
  "demoBall = Ball \<lparr>bl_id = ''b1'', bl_x = 0, bl_y = 0\<rparr>"

definition demoPlayer :: El where
  "demoPlayer = Player \<lparr>pl_id = ''p1'', pl_x = 0, pl_y = 0, pl_color = ''blue'',
                         pl_avatar = None, pl_name = None\<rparr>"

definition demoCurve :: El where
  "demoCurve = ArrowCurve \<lparr>cv_id = ''c1'', cv_points = [\<lparr>px = 0, py = 0\<rparr>, \<lparr>px = 10, py = 5\<rparr>],
                           cv_color = ''yellow'', cv_dashed = True\<rparr>"

definition demoState :: state where
  "demoState = \<lparr>elements = [demoBall], camera = \<lparr>cam_x = 0, cam_y = 0, cam_scale = 1.5\<rparr>,
                history = [], isUndoing = False, selectedId = None,
                importDialogOpen = False, alerts = []\<rparr>"

definition fullState :: state where
  "fullState = demoState\<lparr>history := replicate 49 [] @ [[demoBall]]\<rparr>"

definition threeState :: state where
  "threeState = demoState\<lparr>elements := [demoBall, demoPlayer, demoCurve]\<rparr>"

definition zoneJs :: jsval where
  "zoneJs = JObj [(''kind'', JStr ''zone''), (''radius'', JNum 3)]"

definition looseCurve :: El where
  "looseCurve = ArrowCurve \<lparr>cv_id = ''c2'',
       cv_points = [\<lparr>px = 0, py = 0\<rparr>, \<lparr>px = 1/2, py = 0\<rparr>, \<lparr>px = 3, py = 0\<rparr>],
       cv_color = ''yellow'', cv_dashed = False\<rparr>"

definition oversizedPayload :: jsval where
  "oversizedPayload =
     JObj [(''elements'', JArr [toJson demoBall]),
           (''camera'', JObj [(''x'', JNum 0), (''y'', JNum 0), (''scale'', JNum 100)])]"

section \<open>Properties of the geometry utilities\<close>

lemma hypot_gt_iff: "0 \<le> e \<Longrightarrow> (e < hypot a b) = (e * e < a * a + b * b)"
proof -
  assume e: "0 \<le> e"
  have "e = sqrt (e * e)" using e by simp
  then have "(e < hypot a b) = (sqrt (e * e) < sqrt (a * a + b * b))"
    unfolding hypot_def by simp
  then show ?thesis by (simp only: real_sqrt_less_iff)
qed

lemma beyond_iff:
  "0 \<le> e \<Longrightarrow>
   beyond e p q = (e * e < (px q - px p) * (px q - px p) + (py q - py p) * (py q - py p))"
  by (simp add: beyond_def hypot_gt_iff)

lemma beyond_code [code]:
  "beyond e p q =
     (e < 0 \<or> e * e < (px q - px p) * (px q - px p) + (py q - py p) * (py q - py p))"
proof (cases "0 \<le> e")
  case True
  then show ?thesis by (simp add: beyond_iff)
next
  case False
  have "0 \<le> hypot (px q - px p) (py q - py p)" by (simp add: hypot_def)
  with False show ?thesis by (simp add: beyond_def)
qed

lemma pruneStep_length: "length (pruneStep e r p) \<le> Suc (length r)"
  by (simp add: pruneStep_def)

lemma pruneStep_nonempty: "pruneStep e r p \<noteq> []"
  by (simp add: pruneStep_def)

lemma prunePass_snoc: "prunePass (ps @ [p]) e = pruneStep e (prunePass ps e) p"
  by (simp add: prunePass_def)

lemma prunePass_length: "length (prunePass ps e) \<le> length ps"
proof (induction ps rule: rev_induct)
  case Nil
  show ?case by (simp add: prunePass_def)
next
  case (snoc p ps)
  have "length (pruneStep e (prunePass ps e) p) \<le> Suc (length (prunePass ps e))"
    by (rule pruneStep_length)
  with snoc show ?case by (simp add: prunePass_snoc)
qed

lemma spaced_snoc:
  "spaced e (ps @ [p]) =
     (spaced e ps \<and> (ps = [] \<or> beyond e (last ps) p))"
  by (induction e ps rule: spaced.induct) auto

lemma prunePass_spaced: "spaced e ps \<Longrightarrow> prunePass ps e = ps"
proof (induction ps rule: rev_induct)
  case Nil
  show ?case by (simp add: prunePass_def)
next
  case (snoc p ps)
  then have "prunePass ps e = ps"
    and "ps = [] \<or> beyond e (last ps) p"
    by (simp_all add: spaced_snoc)
  then show ?case by (auto simp: prunePass_snoc pruneStep_def)
qed

lemma prunePass_full_length:
  "length (prunePass ps e) = length ps \<Longrightarrow> prunePass ps e = ps \<and> spaced e ps"
proof (induction ps rule: rev_induct)
  case Nil
  show ?case by (simp add: prunePass_def)
next
  case (snoc p ps)
  let ?r = "prunePass ps e"
  from snoc.prems have len: "length (pruneStep e ?r p) = Suc (length ps)"
    by (simp add: prunePass_snoc)
  have le: "length ?r \<le> length ps" by (rule prunePass_length)
  have full: "length ?r = length ps"
  proof (rule ccontr)
    assume "length ?r \<noteq> length ps"
    with le have "length ?r < length ps" by simp
    moreover have "length (pruneStep e ?r p) \<le> Suc (length ?r)" by (rule pruneStep_length)
    ultimately show False using len by simp
  qed
  with snoc.IH have r: "?r = ps" and sp: "spaced e ps" by simp_all
  have far: "ps = [] \<or> beyond e (last ps) p"
  proof (rule ccontr)
    assume "\<not> ?thesis"
    then have "pruneStep e ps p = butlast ps @ [p]" and "ps \<noteq> []"
      by (simp_all add: pruneStep_def)
    then have "length (pruneStep e ps p) = length ps" by simp
    with len r show False by simp
  qed
  then have "pruneStep e ps p = ps @ [p]" by (auto simp: pruneStep_def)
  with r sp far show ?case by (simp add: prunePass_snoc spaced_snoc)
qed

lemma prunePass_fixed_iff: "(prunePass ps e = ps) = spaced e ps"
  using prunePass_spaced prunePass_full_length by metis

lemma prunePoints_fixed_iff:
  "(prunePoints ps e = ps) = (length ps \<le> 2 \<or> spaced e ps)"
proof (cases "length (prunePass ps e) \<ge> 2")
  case True
  then have eq: "prunePoints ps e = prunePass ps e" by (simp add: prunePoints_def)
  show ?thesis
  proof (cases "spaced e ps")
    case True
    then show ?thesis by (simp add: eq prunePass_spaced)
  next
    case False
    have "length ps \<le> 2 \<Longrightarrow> prunePass ps e = ps"
    proof -
      assume "length ps \<le> 2"
      moreover have "length (prunePass ps e) \<le> length ps" by (rule prunePass_length)
      ultimately have "length (prunePass ps e) = length ps"
        using \<open>length (prunePass ps e) \<ge> 2\<close> by simp
      then show ?thesis by (simp add: prunePass_full_length)
    qed
    with False show ?thesis by (auto simp: eq prunePass_fixed_iff)
  qed
next
  case False
  then have eq: "prunePoints ps e = take 2 ps" by (simp add: prunePoints_def)
  have "spaced e ps \<Longrightarrow> length ps \<le> 2"
  proof -
    assume "spaced e ps"
    then have "prunePass ps e = ps" by (rule prunePass_spaced)
    with False show ?thesis by simp
  qed
  moreover have "(take 2 ps = ps) = (length ps \<le> 2)"
    by (metis take_all_iff)
  ultimately show ?thesis by (auto simp: eq)
qed

lemma prunePoints_length_ge2: "length ps \<ge> 2 \<Longrightarrow> length (prunePoints ps e) \<ge> 2"
  by (simp add: prunePoints_def Let_def)

lemmas prune_eval =
  prunePoints_def prunePass_def pruneStep_def CURVE_POINT_EPSILON_def beyond_iff

subsection \<open>C3: simplification is not idempotent in general\<close>

text \<open>
  C3 claims \<open>prunePoints (prunePoints P) = prunePoints P\<close> for every point sequence of
  length at least 2.  The overwrite branch of the loop replaces a kept point by a later
  point that may lie within \<open>epsilon\<close> of the kept point before it, so the output of one
  pass can still contain a close pair.  Counterexample to C3 at the default epsilon: the
  points \<open>(0,0), (1,0), (0.5,0), (2,0)\<close> simplify to \<open>(0,0), (0.5,0), (2,0)\<close>, which
  simplifies again to \<open>(0.5,0), (2,0)\<close>.
\<close>

theorem prunePoints_not_idempotent:
  "length [\<lparr>px = 0, py = 0\<rparr>, \<lparr>px = 1, py = 0\<rparr>, \<lparr>px = 1/2, py = 0\<rparr>, \<lparr>px = 2, py = 0\<rparr>] \<ge> 2 \<and>
   prunePoints [\<lparr>px = 0, py = 0\<rparr>, \<lparr>px = 1, py = 0\<rparr>, \<lparr>px = 1/2, py = 0\<rparr>, \<lparr>px = 2, py = 0\<rparr>]
       CURVE_POINT_EPSILON
     = [\<lparr>px = 0, py = 0\<rparr>, \<lparr>px = 1/2, py = 0\<rparr>, \<lparr>px = 2, py = 0\<rparr>] \<and>
   prunePoints (prunePoints [\<lparr>px = 0, py = 0\<rparr>, \<lparr>px = 1, py = 0\<rparr>, \<lparr>px = 1/2, py = 0\<rparr>, \<lparr>px = 2, py = 0\<rparr>]
       CURVE_POINT_EPSILON) CURVE_POINT_EPSILON
     = [\<lparr>px = 1/2, py = 0\<rparr>, \<lparr>px = 2, py = 0\<rparr>] \<and>
   prunePoints (prunePoints [\<lparr>px = 0, py = 0\<rparr>, \<lparr>px = 1, py = 0\<rparr>, \<lparr>px = 1/2, py = 0\<rparr>, \<lparr>px = 2, py = 0\<rparr>]
       CURVE_POINT_EPSILON) CURVE_POINT_EPSILON
     \<noteq> prunePoints [\<lparr>px = 0, py = 0\<rparr>, \<lparr>px = 1, py = 0\<rparr>, \<lparr>px = 1/2, py = 0\<rparr>, \<lparr>px = 2, py = 0\<rparr>]
       CURVE_POINT_EPSILON"
  by (simp add: prune_eval)

text \<open>
  C3 (amended): for every point sequence \<open>P\<close> of length at least 2 and every epsilon,
  simplifying the simplified sequence gives the same sequence exactly when the simplified
  sequence has two points or each of its points lies farther than epsilon from its
  predecessor.
\<close>

theorem prunePoints_idempotent_iff:
  "length P \<ge> 2 \<Longrightarrow>
   (prunePoints (prunePoints P e) e = prunePoints P e) =
     (length (prunePoints P e) = 2 \<or> spaced e (prunePoints P e))"
  using prunePoints_fixed_iff [of "prunePoints P e" e] prunePoints_length_ge2 [of P e]
  by auto

theorem prunePoints_idempotent_iff_witness:
  "length [\<lparr>px = 0, py = 0\<rparr>, \<lparr>px = 1, py = 0\<rparr>, \<lparr>px = 2, py = 0\<rparr>, \<lparr>px = 2, py = 1/2\<rparr>] \<ge> 2 \<and>
   spaced CURVE_POINT_EPSILON (prunePoints [\<lparr>px = 0, py = 0\<rparr>, \<lparr>px = 1, py = 0\<rparr>, \<lparr>px = 2, py = 0\<rparr>, \<lparr>px = 2, py = 1/2\<rparr>] CURVE_POINT_EPSILON) \<and>
   prunePoints (prunePoints [\<lparr>px = 0, py = 0\<rparr>, \<lparr>px = 1, py = 0\<rparr>, \<lparr>px = 2, py = 0\<rparr>, \<lparr>px = 2, py = 1/2\<rparr>] CURVE_POINT_EPSILON) CURVE_POINT_EPSILON
     = prunePoints [\<lparr>px = 0, py = 0\<rparr>, \<lparr>px = 1, py = 0\<rparr>, \<lparr>px = 2, py = 0\<rparr>, \<lparr>px = 2, py = 1/2\<rparr>] CURVE_POINT_EPSILON"
proof -
  let ?P = "[\<lparr>px = 0, py = 0\<rparr>, \<lparr>px = 1, py = 0\<rparr>, \<lparr>px = 2, py = 0\<rparr>, \<lparr>px = 2, py = 1/2\<rparr>]"
  have len: "length ?P \<ge> 2" by simp
  have out: "prunePoints ?P CURVE_POINT_EPSILON
      = [\<lparr>px = 0, py = 0\<rparr>, \<lparr>px = 1, py = 0\<rparr>, \<lparr>px = 2, py = 1/2\<rparr>]"
    by (simp add: prune_eval)
  have sp: "spaced CURVE_POINT_EPSILON (prunePoints ?P CURVE_POINT_EPSILON)"
    unfolding out by (simp add: CURVE_POINT_EPSILON_def beyond_iff)
  from prunePoints_idempotent_iff [OF len, of CURVE_POINT_EPSILON] sp len
  show ?thesis by simp
qed

subsection \<open>C4: at least two points come back\<close>

text \<open>
  C4: for every input of length at least 2, \<open>prunePoints\<close> returns at least 2 points, and
  when the keep/overwrite pass leaves fewer than 2 points the result is the first two
  input points.
\<close>

theorem prunePoints_at_least_two:
  "length points \<ge> 2 \<Longrightarrow>
   length (prunePoints points epsilon) \<ge> 2 \<and>
   (length (prunePass points epsilon) < 2 \<longrightarrow>
      prunePoints points epsilon = [points ! 0, points ! 1])"
proof -
  assume len: "length points \<ge> 2"
  then obtain a b rest where "points = a # b # rest"
    by (cases points; cases "tl points") auto
  then show ?thesis by (simp add: prunePoints_def Let_def)
qed

theorem prunePoints_at_least_two_witness:
  "length [\<lparr>px = 0, py = 0\<rparr>, \<lparr>px = 1/10, py = 0\<rparr>, \<lparr>px = 1/5, py = 0\<rparr>] \<ge> 2 \<and>
   length (prunePass [\<lparr>px = 0, py = 0\<rparr>, \<lparr>px = 1/10, py = 0\<rparr>, \<lparr>px = 1/5, py = 0\<rparr>] CURVE_POINT_EPSILON) < 2 \<and>
   prunePoints [\<lparr>px = 0, py = 0\<rparr>, \<lparr>px = 1/10, py = 0\<rparr>, \<lparr>px = 1/5, py = 0\<rparr>] CURVE_POINT_EPSILON
     = [\<lparr>px = 0, py = 0\<rparr>, \<lparr>px = 1/10, py = 0\<rparr>]"
proof -
  let ?P = "[\<lparr>px = 0, py = 0\<rparr>, \<lparr>px = 1/10, py = 0\<rparr>, \<lparr>px = 1/5, py = 0\<rparr>]"
  have len: "length ?P \<ge> 2" by simp
  have short: "length (prunePass ?P CURVE_POINT_EPSILON) < 2"
    by (simp add: prune_eval)
  from prunePoints_at_least_two [OF len, of CURVE_POINT_EPSILON] short len
  show ?thesis by simp
qed

subsection \<open>C5: zooming keeps the anchor in place\<close>

text \<open>
  C5: for every camera with nonzero scale, every anchor screen point, every new scale and
  every viewport, the world point that the old camera shows at the anchor is shown at the
  same anchor by the camera that \<open>cameraZoomTo\<close> returns (exactly, over the reals).
\<close>

theorem cameraZoomTo_anchor_invariant:
  "cam_scale cam \<noteq> 0 \<Longrightarrow>
   screenAt (worldAt anchor cam vp) (cameraZoomTo cam anchor newScale vp) vp = anchor"
  by (cases anchor) (simp add: screenAt_def worldAt_def cameraZoomTo_def Let_def)

theorem cameraZoomTo_anchor_invariant_witness:
  "cam_scale \<lparr>cam_x = 0, cam_y = 0, cam_scale = 1\<rparr> \<noteq> 0 \<and>
   worldAt \<lparr>px = 500, py = 400\<rparr> \<lparr>cam_x = 0, cam_y = 0, cam_scale = 1\<rparr> \<lparr>vp_w = 800, vp_h = 600\<rparr>
     = \<lparr>px = 100, py = 100\<rparr> \<and>
   cameraZoomTo \<lparr>cam_x = 0, cam_y = 0, cam_scale = 1\<rparr> \<lparr>px = 500, py = 400\<rparr> 2
       \<lparr>vp_w = 800, vp_h = 600\<rparr>
     = \<lparr>cam_x = -100, cam_y = -100, cam_scale = 2\<rparr> \<and>
   screenAt \<lparr>px = 100, py = 100\<rparr> \<lparr>cam_x = -100, cam_y = -100, cam_scale = 2\<rparr>
       \<lparr>vp_w = 800, vp_h = 600\<rparr>
     = \<lparr>px = 500, py = 400\<rparr>"
  using cameraZoomTo_anchor_invariant [of "\<lparr>cam_x = 0, cam_y = 0, cam_scale = 1\<rparr>"
      "\<lparr>px = 500, py = 400\<rparr>" "\<lparr>vp_w = 800, vp_h = 600\<rparr>" 2]
  by (simp add: cameraZoomTo_def worldAt_def)

text \<open>
  The same fact read through the screen-to-world map, as the comment in the source puts
  it: with a nonzero new scale the world point under the anchor does not change.
\<close>

lemma cameraZoomTo_world_fixed:
  "newScale \<noteq> 0 \<Longrightarrow>
   worldAt anchor (cameraZoomTo cam anchor newScale vp) vp = worldAt anchor cam vp"
  by (simp add: worldAt_def cameraZoomTo_def Let_def)

section \<open>Properties of the history and of element updates\<close>

lemma cloneEl_same: "cloneEl el = el"
proof (cases el)
  case (ArrowCurve c)
  have "map (\<lambda>p. \<lparr>px = px p, py = py p\<rparr>) (cv_points c) = cv_points c"
    by (induction "cv_points c") (simp_all add: map_idI)
  then show ?thesis using ArrowCurve by simp
qed simp_all

lemma cloneElements_same: "cloneElements els = els"
  by (simp add: cloneElements_def cloneEl_same map_idI)

lemma history_pushHistory:
  "history (pushHistory snap s) =
     (if length (history s) \<ge> HISTORY_LIMIT then tl (history s) @ [snap] else history s @ [snap])"
  by (cases "history s") (simp_all add: pushHistory_def Let_def cloneElements_same HISTORY_LIMIT_def)

lemma pushHistory_other:
  "elements (pushHistory snap s) = elements s"
  "isUndoing (pushHistory snap s) = isUndoing s"
  "camera (pushHistory snap s) = camera s"
  "selectedId (pushHistory snap s) = selectedId s"
  by (simp_all add: pushHistory_def Let_def)

lemma pushHistory_last:
  "history (pushHistory snap s) \<noteq> [] \<and> last (history (pushHistory snap s)) = snap"
  by (simp add: history_pushHistory)

lemma pushHistory_length:
  "length (history s) \<le> HISTORY_LIMIT \<Longrightarrow> length (history (pushHistory snap s)) \<le> HISTORY_LIMIT"
  by (simp add: history_pushHistory HISTORY_LIMIT_def)

lemma undo_after_push:
  "elements (undo ((pushHistory prev s)\<lparr>elements := next\<rparr>)) = prev"
  using pushHistory_last [of prev s]
  by (simp add: undo_def Let_def cloneElements_same)

lemma undo_after_push':
  "elements (undo ((pushHistory prev s)\<lparr>elements := next, selectedId := sel\<rparr>)) = prev"
  using pushHistory_last [of prev s]
  by (simp add: undo_def Let_def cloneElements_same)

lemma applyElementsUpdate_Fresh:
  "updater (elements s) = Fresh next \<Longrightarrow> \<not> isUndoing s \<Longrightarrow>
   applyElementsUpdate updater s = Inr ((pushHistory (elements s) s)\<lparr>elements := next\<rparr>)"
  by (simp add: applyElementsUpdate_def Let_def)

lemma applyElementsUpdate_undo:
  assumes "\<not> isUndoing s" and "applyElementsUpdate updater s = Inr s'"
    and "updater (elements s) \<noteq> Same"
  shows "elements (undo s') = elements s"
  using assms
proof (cases "updater (elements s)")
  case (Fresh nxt)
  with assms have "s' = (pushHistory (elements s) s)\<lparr>elements := nxt\<rparr>"
    by (simp add: applyElementsUpdate_def Let_def)
  then show ?thesis by (simp add: undo_after_push)
qed (simp_all add: applyElementsUpdate_def Let_def)

lemma mutate_undo:
  assumes "\<not> isUndoing s" and "mutate m s = Inr s'"
  shows "elements (undo s') = elements s"
  using assms
proof (cases m)
  case (MoveCurve ident dx dy)
  with assms show ?thesis
    by (auto simp: moveCurve_def intro!: applyElementsUpdate_undo [of s _ s'] split: sum.splits)
next
  case (DeleteElement ident)
  let ?s = "s\<lparr>selectedId := (if selectedId s = Some ident then None else selectedId s)\<rparr>"
  have "\<not> isUndoing ?s" using assms by simp
  moreover have "applyElementsUpdate (\<lambda>els. Fresh (filter (\<lambda>e. el_id e \<noteq> ident) els)) ?s = Inr s'"
    using assms DeleteElement by (simp add: deleteElement_def)
  ultimately have "elements (undo s') = elements ?s"
    by (rule applyElementsUpdate_undo) simp
  then show ?thesis by simp
next
  case (ReplaceElements nxt)
  with assms show ?thesis by (auto simp: replaceElements_def undo_after_push')
qed (auto simp: movePlayer_def moveBall_def moveStraight_def spawnAt_def
       appendElement_def updateElement_def intro!: applyElementsUpdate_undo [of s _ s'])

lemma undo_empty: "history s = [] \<Longrightarrow> undo s = s"
  by (simp add: undo_def)

subsection \<open>C6: undo restores the elements\<close>

text \<open>
  C6: after any single mutating operation (a move, a spawn or a committed arrow, a patch,
  a delete, a full replace) performed outside an undo, \<open>undo\<close> brings back exactly the
  element sequence from before the operation, curve points included; and with an empty
  history \<open>undo\<close> changes nothing.
\<close>

theorem undo_restores_elements:
  "(\<not> isUndoing s \<longrightarrow> mutate m s = Inr s' \<longrightarrow> elements (undo s') = elements s) \<and>
   (history s = [] \<longrightarrow> undo s = s)"
  using mutate_undo undo_empty by blast


theorem undo_restores_elements_witness:
  "\<not> isUndoing demoState \<and>
   mutate (SpawnAt ''p1'' (SpawnPlayer 0 0 ''blue'' None None)) demoState
     = Inr (demoState\<lparr>elements := [demoBall, demoPlayer], history := [[demoBall]]\<rparr>) \<and>
   elements (undo (demoState\<lparr>elements := [demoBall, demoPlayer], history := [[demoBall]]\<rparr>))
     = [demoBall] \<and>
   history demoState = [] \<and> undo demoState = demoState"
proof -
  let ?m = "SpawnAt ''p1'' (SpawnPlayer 0 0 ''blue'' None None)"
  let ?s' = "demoState\<lparr>elements := [demoBall, demoPlayer], history := [[demoBall]]\<rparr>"
  have a: "\<not> isUndoing demoState" by (simp add: demoState_def)
  have b: "mutate ?m demoState = Inr ?s'"
    by (simp add: demoState_def spawnAt_def applyElementsUpdate_def pushHistory_def
        cloneElements_def demoBall_def demoPlayer_def HISTORY_LIMIT_def Let_def)
  have c: "history demoState = []" by (simp add: demoState_def)
  have d: "elements demoState = [demoBall]" by (simp add: demoState_def)
  from undo_restores_elements [of demoState ?m ?s'] a b c d show ?thesis by simp
qed

text \<open>
  Every mutation other than \<open>moveCurve\<close> returns, and \<open>moveCurve\<close> returns when every
  element carrying the target identifier is a curve.
\<close>

lemma applyElementsUpdate_returns:
  "\<exists>s'. applyElementsUpdate (\<lambda>els. Fresh (f els)) s = Inr s'"
  by (simp add: applyElementsUpdate_def Let_def)

lemma mutate_returns:
  assumes "\<And>ident dx dy. m \<noteq> MoveCurve ident dx dy"
  shows "\<exists>s'. mutate m s = Inr s'"
proof (cases m)
  case (MoveCurve ident dx dy)
  with assms [of ident dx dy] show ?thesis by blast
next
  case (MovePlayer ident x y)
  then show ?thesis by (simp add: movePlayer_def applyElementsUpdate_returns)
next
  case (MoveBall ident x y)
  then show ?thesis by (simp add: moveBall_def applyElementsUpdate_returns)
next
  case (MoveStraight ident x y)
  then show ?thesis by (simp add: moveStraight_def applyElementsUpdate_returns)
next
  case (SpawnAt newId el)
  then show ?thesis by (simp add: spawnAt_def applyElementsUpdate_returns)
next
  case (AppendElement el)
  then show ?thesis by (simp add: appendElement_def applyElementsUpdate_returns)
next
  case (UpdateElement ident pt)
  then show ?thesis by (simp add: updateElement_def applyElementsUpdate_returns)
next
  case (DeleteElement ident)
  then show ?thesis by (simp add: deleteElement_def applyElementsUpdate_returns)
next
  case (ReplaceElements nxt)
  then show ?thesis by simp
qed

lemma mapThrowing_returns:
  "(\<And>a. a \<in> set xs \<Longrightarrow> \<exists>b. f a = Inr b) \<Longrightarrow> \<exists>ys. mapThrowing f xs = Inr ys"
proof (induction xs)
  case Nil
  show ?case by simp
next
  case (Cons a xs)
  from Cons.prems [of a] obtain b where b: "f a = Inr b" by auto
  from Cons.IH Cons.prems obtain ys where ys: "mapThrowing f xs = Inr ys" by auto
  from b ys show ?case by simp
qed

lemma moveCurve_returns:
  assumes "\<And>e. e \<in> set (elements s) \<Longrightarrow> el_id e = ident \<Longrightarrow> el_kind e = ''arrow-curve''"
  shows "\<exists>s'. moveCurve ident dx dy s = Inr s'"
proof -
  let ?f = "\<lambda>e. if el_id e = ident then shiftCurve dx dy e else Inr e"
  have "\<exists>b. ?f e = Inr b" if "e \<in> set (elements s)" for e
    using assms [OF that] by (cases e) auto
  then obtain nxt where "mapThrowing ?f (elements s) = Inr nxt"
    using mapThrowing_returns [of "elements s" ?f] by blast
  then show ?thesis by (simp add: moveCurve_def applyElementsUpdate_def Let_def)
qed

text \<open>
  The flag \<^verbatim>\<open>isUndoingRef\<close> is lowered again before \<open>undo\<close> returns, so it is down after
  every sequence of actions that starts with the flag down.
\<close>

lemma applyElementsUpdate_isUndoing:
  "applyElementsUpdate updater s = Inr s' \<Longrightarrow> isUndoing s' = isUndoing s"
  by (cases "updater (elements s)"; cases "isUndoing s")
    (auto simp: applyElementsUpdate_def Let_def pushHistory_other)

lemma mutate_isUndoing:
  assumes "mutate m s = Inr s'"
  shows "isUndoing s' = isUndoing s"
  using assms
proof (cases m)
  case (DeleteElement ident)
  with assms show ?thesis
    by (auto simp: deleteElement_def dest: applyElementsUpdate_isUndoing)
next
  case (ReplaceElements nxt)
  with assms show ?thesis
    by (cases "isUndoing s") (auto simp: replaceElements_def pushHistory_other)
qed (auto simp: movePlayer_def moveBall_def moveStraight_def moveCurve_def spawnAt_def
       appendElement_def updateElement_def dest: applyElementsUpdate_isUndoing)

lemma undo_isUndoing: "\<not> isUndoing s \<Longrightarrow> \<not> isUndoing (undo s)"
  by (cases "history s = []") (simp_all add: undo_def Let_def)

lemma run_not_undoing:
  "run acts s = Inr s' \<Longrightarrow> \<not> isUndoing s \<Longrightarrow> \<not> isUndoing s'"
proof (induction acts arbitrary: s)
  case Nil
  then show ?case by simp
next
  case (Cons a acts)
  then obtain s1 where a: "act a s = Inr s1" and r: "run acts s1 = Inr s'"
    by (auto split: sum.splits)
  have "\<not> isUndoing s1"
  proof (cases a)
    case (Mutation m)
    with a Cons.prems(2) show ?thesis by (auto dest: mutate_isUndoing)
  next
    case Undo
    with a Cons.prems(2) show ?thesis by (auto simp: undo_isUndoing)
  qed
  with r show ?case by (rule Cons.IH)
qed

subsection \<open>C7: the history is bounded\<close>

lemma applyElementsUpdate_history_le:
  "applyElementsUpdate updater s = Inr s' \<Longrightarrow> length (history s) \<le> HISTORY_LIMIT \<Longrightarrow>
   length (history s') \<le> HISTORY_LIMIT"
  by (auto simp: applyElementsUpdate_def Let_def pushHistory_length
      split: updater_result.splits if_splits)

lemma mutate_history_le:
  assumes "mutate m s = Inr s'" and "length (history s) \<le> HISTORY_LIMIT"
  shows "length (history s') \<le> HISTORY_LIMIT"
  using assms
proof (cases m)
  case (DeleteElement ident)
  let ?s = "s\<lparr>selectedId := (if selectedId s = Some ident then None else selectedId s)\<rparr>"
  have "applyElementsUpdate (\<lambda>els. Fresh (filter (\<lambda>e. el_id e \<noteq> ident) els)) ?s = Inr s'"
    using assms DeleteElement by (simp add: deleteElement_def)
  moreover have "length (history ?s) \<le> HISTORY_LIMIT" using assms by simp
  ultimately show ?thesis by (rule applyElementsUpdate_history_le)
next
  case (ReplaceElements nxt)
  with assms show ?thesis by (auto simp: replaceElements_def pushHistory_length)
qed (auto simp: movePlayer_def moveBall_def moveStraight_def moveCurve_def spawnAt_def
       appendElement_def updateElement_def elim: applyElementsUpdate_history_le)

lemma undo_history: "history (undo s) = butlast (history s)"
  by (simp add: undo_def Let_def)

lemma act_history_le:
  "act a s = Inr s' \<Longrightarrow> length (history s) \<le> HISTORY_LIMIT \<Longrightarrow>
   length (history s') \<le> HISTORY_LIMIT"
  by (cases a) (auto simp: undo_history dest: mutate_history_le)

lemma run_history_le:
  "run acts s = Inr s' \<Longrightarrow> length (history s) \<le> HISTORY_LIMIT \<Longrightarrow>
   length (history s') \<le> HISTORY_LIMIT"
proof (induction acts arbitrary: s)
  case Nil
  then show ?case by simp
next
  case (Cons a acts)
  then obtain s1 where a: "act a s = Inr s1" and r: "run acts s1 = Inr s'"
    by (auto split: sum.splits)
  from a Cons.prems(2) have "length (history s1) \<le> HISTORY_LIMIT" by (rule act_history_le)
  with r show ?case by (rule Cons.IH)
qed

text \<open>
  C7: whatever sequence of mutations and undos runs, a history of at most
  \<open>HISTORY_LIMIT = 50\<close> snapshots stays at most that long.  A push below capacity
  appends the snapshot; a push at capacity drops the oldest snapshot and appends the new
  one; \<open>undo\<close> removes the newest snapshot and installs it.
\<close>

theorem history_bounded:
  "(length (history s) \<le> HISTORY_LIMIT \<longrightarrow> run acts s = Inr s' \<longrightarrow>
      length (history s') \<le> HISTORY_LIMIT) \<and>
   (length (history s) < HISTORY_LIMIT \<longrightarrow>
      history (pushHistory snapshot s) = history s @ [cloneElements snapshot]) \<and>
   (length (history s) = HISTORY_LIMIT \<longrightarrow>
      history (pushHistory snapshot s) = tl (history s) @ [cloneElements snapshot]) \<and>
   (history s \<noteq> [] \<longrightarrow>
      history (undo s) = butlast (history s) \<and>
      elements (undo s) = cloneElements (last (history s)))"
  using run_history_le [of acts s s']
  by (auto simp: history_pushHistory cloneElements_same undo_def Let_def)


lemma fullState_history_length: "length (history fullState) = HISTORY_LIMIT"
  by (simp add: fullState_def HISTORY_LIMIT_def)

theorem history_bounded_witness:
  "length (history fullState) = HISTORY_LIMIT \<and>
   run [Mutation (SpawnAt ''p1'' (SpawnPlayer 0 0 ''blue'' None None)), Undo] fullState
     = Inr (fullState\<lparr>history := tl (history fullState)\<rparr>) \<and>
   length (history (fullState\<lparr>history := tl (history fullState)\<rparr>)) \<le> HISTORY_LIMIT \<and>
   history (pushHistory [demoPlayer] fullState) = tl (history fullState) @ [[demoPlayer]] \<and>
   history fullState \<noteq> [] \<and>
   history (undo fullState) = butlast (history fullState) \<and>
   elements (undo fullState) = [demoBall]"
proof -
  let ?acts = "[Mutation (SpawnAt ''p1'' (SpawnPlayer 0 0 ''blue'' None None)), Undo]"
  let ?s' = "fullState\<lparr>history := tl (history fullState)\<rparr>"
  have len: "length (history fullState) = HISTORY_LIMIT" by (rule fullState_history_length)
  have ne: "history fullState \<noteq> []" by (simp add: fullState_def)
  have r: "run ?acts fullState = Inr ?s'"
    using len
    by (simp add: spawnAt_def applyElementsUpdate_def pushHistory_def undo_def Let_def
        cloneElements_def fullState_def demoState_def demoBall_def butlast_append)
  have l: "last (history fullState) = [demoBall]" by (simp add: fullState_def)
  have c: "cloneElements [demoBall] = [demoBall]" "cloneElements [demoPlayer] = [demoPlayer]"
    by (simp_all add: cloneElements_def demoBall_def demoPlayer_def)
  from history_bounded [of fullState ?acts ?s' "[demoPlayer]"] len ne r l c
  show ?thesis by simp
qed

subsection \<open>C9: mutations by identifier leave the other elements alone\<close>

lemma mapThrowing_Inr:
  "mapThrowing f xs = Inr ys \<Longrightarrow>
   length ys = length xs \<and> (\<forall>i < length xs. f (xs ! i) = Inr (ys ! i))"
proof (induction xs arbitrary: ys)
  case Nil
  then show ?case by simp
next
  case (Cons a xs)
  then obtain b bs where b: "f a = Inr b" and bs: "mapThrowing f xs = Inr bs" and ys: "ys = b # bs"
    by (auto split: sum.splits)
  from Cons.IH [OF bs] b ys show ?case by (auto simp: nth_Cons split: nat.splits)
qed

lemma applyElementsUpdate_elements:
  "applyElementsUpdate (\<lambda>els. Fresh (f els)) s = Inr s' \<Longrightarrow> elements s' = f (elements s)"
  by (auto simp: applyElementsUpdate_def Let_def pushHistory_def)

lemma map_frame:
  "applyElementsUpdate (\<lambda>els. Fresh (map (\<lambda>e. if el_id e = ident then g e else e) els)) s = Inr s' \<Longrightarrow>
   length (elements s') = length (elements s) \<and>
   (\<forall>i < length (elements s). el_id (elements s ! i) \<noteq> ident \<longrightarrow> elements s' ! i = elements s ! i)"
  by (drule applyElementsUpdate_elements) simp

lemma moveCurve_frame:
  assumes "moveCurve ident dx dy s = Inr s'"
  shows "length (elements s') = length (elements s) \<and>
   (\<forall>i < length (elements s). el_id (elements s ! i) \<noteq> ident \<longrightarrow> elements s' ! i = elements s ! i)"
proof -
  let ?f = "\<lambda>e. if el_id e = ident then shiftCurve dx dy e else Inr e"
  from assms obtain nxt where m: "mapThrowing ?f (elements s) = Inr nxt" and e: "elements s' = nxt"
    by (auto simp: moveCurve_def applyElementsUpdate_def Let_def pushHistory_def
        split: sum.splits if_splits)
  from mapThrowing_Inr [OF m] e show ?thesis by auto
qed

lemma map_ops_frame:
  assumes "op \<in> {movePlayer ident a b, moveBall ident a b, moveStraight ident a b,
           moveCurve ident a b, updateElement ident pt}" and r: "op s = Inr s'"
  shows "length (elements s') = length (elements s) \<and>
      (\<forall>i < length (elements s).
         el_id (elements s ! i) \<noteq> ident \<longrightarrow> elements s' ! i = elements s ! i)"
proof -
  from assms(1) consider "op = movePlayer ident a b" | "op = moveBall ident a b"
    | "op = moveStraight ident a b" | "op = moveCurve ident a b" | "op = updateElement ident pt"
    by auto
  then show ?thesis
  proof cases
    case 1 with r show ?thesis unfolding movePlayer_def by (intro map_frame) simp
  next
    case 2 with r show ?thesis unfolding moveBall_def by (intro map_frame) simp
  next
    case 3 with r show ?thesis unfolding moveStraight_def by (intro map_frame) simp
  next
    case 4 with r show ?thesis by (intro moveCurve_frame) simp
  next
    case 5 with r show ?thesis unfolding updateElement_def by (intro map_frame) simp
  qed
qed

lemma deleteElement_elements:
  assumes "deleteElement ident s = Inr s'"
  shows "elements s' = filter (\<lambda>e. el_id e \<noteq> ident) (elements s)"
proof -
  from assms have "elements s' = filter (\<lambda>e. el_id e \<noteq> ident)
      (elements (s\<lparr>selectedId := (if selectedId s = Some ident then None else selectedId s)\<rparr>))"
    unfolding deleteElement_def by (rule applyElementsUpdate_elements)
  then show ?thesis by simp
qed

text \<open>
  C9: after \<open>movePlayer\<close>, \<open>moveBall\<close>, \<open>moveStraight\<close>, \<open>moveCurve\<close> or \<open>updateElement\<close>
  on a target identifier the element sequence has the same length, and every position
  whose element has a different identifier holds the same element as before; after
  \<open>deleteElement\<close> the sequence is the old one without the elements carrying the target
  identifier, in the old order.
\<close>

theorem id_targeted_frame:
  "(op \<in> {movePlayer ident a b, moveBall ident a b, moveStraight ident a b,
           moveCurve ident a b, updateElement ident pt} \<longrightarrow>
    op s = Inr s' \<longrightarrow>
      length (elements s') = length (elements s) \<and>
      (\<forall>i < length (elements s).
         el_id (elements s ! i) \<noteq> ident \<longrightarrow> elements s' ! i = elements s ! i)) \<and>
   (deleteElement ident s = Inr s' \<longrightarrow>
      elements s' = filter (\<lambda>e. el_id e \<noteq> ident) (elements s))"
  using map_ops_frame [of op ident a b pt s s'] deleteElement_elements [of ident s s']
  by blast


theorem id_targeted_frame_witness:
  "moveCurve ''c1'' 1 2 threeState
     = Inr (threeState\<lparr>elements := [demoBall, demoPlayer,
              ArrowCurve \<lparr>cv_id = ''c1'', cv_points = [\<lparr>px = 1, py = 2\<rparr>, \<lparr>px = 11, py = 7\<rparr>],
                          cv_color = ''yellow'', cv_dashed = True\<rparr>],
            history := [[demoBall, demoPlayer, demoCurve]]\<rparr>) \<and>
   el_id (elements threeState ! 1) \<noteq> ''c1'' \<and>
   deleteElement ''p1'' threeState
     = Inr (threeState\<lparr>elements := [demoBall, demoCurve],
            history := [[demoBall, demoPlayer, demoCurve]]\<rparr>) \<and>
   filter (\<lambda>e. el_id e \<noteq> ''p1'') (elements threeState) = [demoBall, demoCurve]"
proof -
  let ?moved = "threeState\<lparr>elements := [demoBall, demoPlayer,
              ArrowCurve \<lparr>cv_id = ''c1'', cv_points = [\<lparr>px = 1, py = 2\<rparr>, \<lparr>px = 11, py = 7\<rparr>],
                          cv_color = ''yellow'', cv_dashed = True\<rparr>],
            history := [[demoBall, demoPlayer, demoCurve]]\<rparr>"
  let ?deleted = "threeState\<lparr>elements := [demoBall, demoCurve],
            history := [[demoBall, demoPlayer, demoCurve]]\<rparr>"
  have m: "moveCurve ''c1'' 1 2 threeState = Inr ?moved"
    by (simp add: moveCurve_def applyElementsUpdate_def pushHistory_def cloneElements_def
        threeState_def demoState_def demoBall_def demoPlayer_def demoCurve_def
        HISTORY_LIMIT_def Let_def)
  have d: "deleteElement ''p1'' threeState = Inr ?deleted"
    by (simp add: deleteElement_def applyElementsUpdate_def pushHistory_def cloneElements_def
        threeState_def demoState_def demoBall_def demoPlayer_def demoCurve_def
        HISTORY_LIMIT_def Let_def)
  have e: "elements threeState = [demoBall, demoPlayer, demoCurve]"
    by (simp add: threeState_def)
  have i: "el_id demoBall = ''b1''" "el_id demoPlayer = ''p1''" "el_id demoCurve = ''c1''"
    by (simp_all add: demoBall_def demoPlayer_def demoCurve_def)
  from id_targeted_frame [of "moveCurve ''c1'' 1 2" "''c1''" 1 2 _ threeState ?moved]
    id_targeted_frame [of _ "''p1''" _ _ _ threeState ?deleted] m d e i
  show ?thesis by simp
qed

section \<open>Properties of the import boundary\<close>

lemma andThen_Inr [simp]: "andThen (Inr a) f = f a"
  by (simp add: andThen_def)

lemma andThen_Inl [simp]: "andThen (Inl e) f = Inl e"
  by (simp add: andThen_def)

lemma andThen_eq_Inr: "(andThen r f = Inr b) = (\<exists>a. r = Inr a \<and> f a = Inr b)"
  by (cases r) simp_all

lemma mapThrowing_map: "(\<And>a. a \<in> set xs \<Longrightarrow> f a = Inr (g a)) \<Longrightarrow> mapThrowing f xs = Inr (map g xs)"
  by (induction xs) simp_all

lemma mapThrowing_append:
  "mapThrowing f (xs @ ys) =
     andThen (mapThrowing f xs) (\<lambda>as. andThen (mapThrowing f ys) (\<lambda>bs. Inr (as @ bs)))"
  by (induction xs) (auto simp: andThen_def split: sum.splits)

lemma mapThrowing_member:
  "mapThrowing f xs = Inr ys \<Longrightarrow> y \<in> set ys \<Longrightarrow> \<exists>x \<in> set xs. f x = Inr y"
proof (induction xs arbitrary: ys)
  case Nil
  then show ?case by simp
next
  case (Cons a xs)
  then obtain b bs where "f a = Inr b" "mapThrowing f xs = Inr bs" "ys = b # bs"
    by (auto split: sum.splits)
  with Cons show ?case by auto
qed

lemma clonePointJs_pointJs: "clonePointJs (pointJs p) = Inr (pointJs p)"
  by (simp add: clonePointJs_def pointJs_def nullish_def)

lemma clonePoints_pointJs: "mapThrowing clonePointJs (map pointJs ps) = Inr (map pointJs ps)"
  by (induction ps) (simp_all add: clonePointJs_pointJs)

lemma cloneElJs_curveJs:
  "cloneElJs (curveJs el newId points) = Inr (curveJs el newId points)"
  by (simp add: cloneElJs_def curveJs_def nullish_def clonePoints_pointJs)

text \<open>
  An entry is mapped to \<^verbatim>\<open>null\<close>, to a rebuilt curve, to a rebuilt straight arrow, or to
  itself; in the last case it is a non-null value of type \<^verbatim>\<open>"object"\<close> that is not a curve.
  So cloning the truthy entries never throws and yields objects.
\<close>

lemma normalizeEntry_cases:
  "normalizeEntry coerce newId el = Inr v \<Longrightarrow>
   v = JNull \<or>
   (\<exists>pts. v = curveJs el newId pts) \<or>
   (\<exists>props. v = JObj props \<and> getProp (JObj props) ''kind'' = JStr ''arrow-straight'') \<or>
   (v = el \<and> truthy el \<and> typeOf el = ''object'' \<and> getProp el ''kind'' \<noteq> JStr ''arrow-curve'')"
  by (auto simp: normalizeEntry_def Let_def andThen_eq_Inr split: if_splits)


lemma cloneElJs_object:
  "truthy el \<Longrightarrow> typeOf el = ''object'' \<Longrightarrow> getProp el ''kind'' \<noteq> JStr ''arrow-curve'' \<Longrightarrow>
   cloneElJs el = Inr (JObj (spread el))"
  by (cases el) (simp_all add: cloneElJs_def nullish_def)

lemma cloneElJs_normalizeEntry:
  assumes "normalizeEntry coerce newId el = Inr v" and "v \<noteq> JNull"
  shows "\<exists>props. cloneElJs v = Inr (JObj props)"
  using normalizeEntry_cases [OF assms(1)] assms(2)
proof (elim disjE exE conjE)
  fix pts assume "v = curveJs el newId pts"
  then show ?thesis using cloneElJs_curveJs [of el newId pts] by (auto simp: curveJs_def)
next
  fix props assume "v = JObj props"
    and "getProp (JObj props) ''kind'' = JStr ''arrow-straight''"
  then show ?thesis by (simp add: cloneElJs_def nullish_def)
next
  assume "v = el" "truthy el" "typeOf el = ''object''"
    "getProp el ''kind'' \<noteq> JStr ''arrow-curve''"
  then show ?thesis by (simp add: cloneElJs_object)
qed simp

lemma mappedEntries_member:
  "mappedEntries coerce uuidv4 raw = Inr entries \<Longrightarrow> v \<in> set entries \<Longrightarrow>
   \<exists>newId el. normalizeEntry coerce newId el = Inr v"
  unfolding mappedEntries_def by (drule (1) mapThrowing_member) auto

lemma cloneElementsJs_entries:
  assumes "mappedEntries coerce uuidv4 raw = Inr entries"
  shows "cloneElementsJs (filter truthy entries) =
     Inr (map (\<lambda>v. JObj (case cloneElJs v of Inr (JObj props) \<Rightarrow> props | _ \<Rightarrow> []))
            (filter truthy entries))"
  unfolding cloneElementsJs_def
proof (rule mapThrowing_map)
  fix v assume "v \<in> set (filter truthy entries)"
  then have t: "truthy v" and "v \<in> set entries" by simp_all
  with assms obtain newId el where v: "normalizeEntry coerce newId el = Inr v"
    using mappedEntries_member by blast
  from t have "v \<noteq> JNull" by auto
  with cloneElJs_normalizeEntry [OF v]
  obtain props where "cloneElJs v = Inr (JObj props)" by auto
  then show "cloneElJs v = Inr (JObj (case cloneElJs v of Inr (JObj props) \<Rightarrow> props | _ \<Rightarrow> []))"
    by simp
qed

lemma normalize_Inr:
  "(normalizeImportedElements coerce uuidv4 raw = Inr out) =
   (\<exists>entries. mappedEntries coerce uuidv4 raw = Inr entries \<and>
      out = map (\<lambda>v. JObj (case cloneElJs v of Inr (JObj props) \<Rightarrow> props | _ \<Rightarrow> []))
              (filter truthy entries))"
  by (auto simp: normalizeImportedElements_def andThen_eq_Inr Let_def cloneElementsJs_entries)

lemma normalize_objects:
  "normalizeImportedElements coerce uuidv4 raw = Inr out \<Longrightarrow> e \<in> set out \<Longrightarrow> \<exists>props. e = JObj props"
  by (auto simp: normalize_Inr)

text \<open>When no conversion to a number throws, the call returns.\<close>

lemma toNumber_returns:
  "\<forall>v. \<exists>n. coerce v = Inr n \<Longrightarrow> \<exists>n. toNumber coerce v = Inr n"
  by (cases v) simp_all

lemma importedPoints_returns:
  assumes "\<forall>v. \<exists>n. coerce v = Inr n"
  shows "\<exists>pts. importedPoints coerce ps = Inr pts"
proof -
  have "\<exists>b. importedPoint coerce p = Inr b" for p
  proof -
    obtain a where a: "toNumber coerce (optProp p ''x'') = Inr a"
      using toNumber_returns [OF assms] by blast
    obtain b where b: "toNumber coerce (optProp p ''y'') = Inr b"
      using toNumber_returns [OF assms] by blast
    from a b show ?thesis by (simp add: importedPoint_def)
  qed
  then obtain pairs where "mapThrowing (importedPoint coerce) ps = Inr pairs"
    using mapThrowing_returns [of ps "importedPoint coerce"] by blast
  then show ?thesis by (simp add: importedPoints_def)
qed

lemma normalizeEntry_returns:
  assumes "\<forall>v. \<exists>n. coerce v = Inr n"
  shows "\<exists>v. normalizeEntry coerce newId el = Inr v"
proof -
  obtain pts where p: "importedPoints coerce (arrayItems (getProp el ''points'')) = Inr pts"
    using importedPoints_returns [OF assms] by blast
  obtain x1 where x1: "toNumber coerce (getProp el ''x1'') = Inr x1"
    using toNumber_returns [OF assms] by blast
  obtain y1 where y1: "toNumber coerce (getProp el ''y1'') = Inr y1"
    using toNumber_returns [OF assms] by blast
  obtain x2 where x2: "toNumber coerce (getProp el ''x2'') = Inr x2"
    using toNumber_returns [OF assms] by blast
  obtain y2 where y2: "toNumber coerce (getProp el ''y2'') = Inr y2"
    using toNumber_returns [OF assms] by blast
  show ?thesis by (simp add: normalizeEntry_def p x1 y1 x2 y2 Let_def)
qed

lemma normalize_returns:
  assumes "\<forall>v. \<exists>n. coerce v = Inr n"
  shows "\<exists>out. normalizeImportedElements coerce uuidv4 raw = Inr out"
proof -
  have "\<exists>b. (\<lambda>(i, el). normalizeEntry coerce (uuidv4 i) el) a = Inr b" for a
    using normalizeEntry_returns [OF assms] by (cases a) simp
  then obtain entries where "mappedEntries coerce uuidv4 raw = Inr entries"
    unfolding mappedEntries_def
    using mapThrowing_returns [of "enumerate 0 raw" "\<lambda>(i, el). normalizeEntry coerce (uuidv4 i) el"]
    by blast
  then show ?thesis by (auto simp: normalize_Inr)
qed


text \<open>Dropped entries and entries of other kinds.\<close>

lemma entries_cong:
  "(\<And>i. n \<le> i \<Longrightarrow> i < n + length xs \<Longrightarrow> u i = u' i) \<Longrightarrow>
   mapThrowing (\<lambda>(i, el). f (u i) el) (enumerate n xs)
     = mapThrowing (\<lambda>(i, el). f (u' i) el) (enumerate n xs)"
proof (induction xs arbitrary: n)
  case Nil
  show ?case by simp
next
  case (Cons x xs)
  have "u n = u' n" using Cons.prems [of n] by simp
  moreover have "mapThrowing (\<lambda>(i, el). f (u i) el) (enumerate (Suc n) xs)
      = mapThrowing (\<lambda>(i, el). f (u' i) el) (enumerate (Suc n) xs)"
    by (rule Cons.IH) (use Cons.prems in auto)
  ultimately show ?case by (simp cong: sum.case_cong)
qed

lemma entries_shift:
  "mapThrowing (\<lambda>(i, el). f (u i) el) (enumerate (Suc n) xs)
     = mapThrowing (\<lambda>(i, el). f (u (Suc i)) el) (enumerate n xs)"
  by (induction xs arbitrary: n) (simp_all cong: sum.case_cong)

lemma normalizeEntry_non_object:
  "v = JNull \<or> typeOf v \<noteq> ''object'' \<Longrightarrow> normalizeEntry coerce newId v = Inr JNull"
  by (auto simp: normalizeEntry_def)

lemma normalize_drop:
  assumes "v = JNull \<or> typeOf v \<noteq> ''object''"
  shows "normalizeImportedElements coerce uuidv4 (xs @ v # ys) =
         normalizeImportedElements coerce
           (\<lambda>i. if i < length xs then uuidv4 i else uuidv4 (Suc i)) (xs @ ys)"
proof -
  let ?f = "normalizeEntry coerce"
  let ?u' = "\<lambda>i. if i < length xs then uuidv4 i else uuidv4 (Suc i)"
  let ?A = "mapThrowing (\<lambda>(i, el). ?f (uuidv4 i) el) (enumerate 0 xs)"
  let ?B = "mapThrowing (\<lambda>(i, el). ?f (uuidv4 (Suc i)) el) (enumerate (length xs) ys)"
  have a: "mapThrowing (\<lambda>(i, el). ?f (?u' i) el) (enumerate 0 xs) = ?A"
    by (rule entries_cong) simp
  have b: "mapThrowing (\<lambda>(i, el). ?f (?u' i) el) (enumerate (length xs) ys) = ?B"
    by (rule entries_cong) simp
  have c: "mapThrowing (\<lambda>(i, el). ?f (uuidv4 i) el) (enumerate (Suc (length xs)) ys) = ?B"
    by (rule entries_shift)
  have d: "?f (uuidv4 (length xs)) v = Inr JNull"
    using assms by (rule normalizeEntry_non_object)
  have l: "mappedEntries coerce uuidv4 (xs @ v # ys)
      = andThen ?A (\<lambda>as. andThen ?B (\<lambda>bs. Inr (as @ JNull # bs)))"
    by (cases ?B) (simp_all add: mappedEntries_def enumerate_append_eq mapThrowing_append c d)
  have r: "mappedEntries coerce ?u' (xs @ ys)
      = andThen ?A (\<lambda>as. andThen ?B (\<lambda>bs. Inr (as @ bs)))"
    by (simp add: mappedEntries_def enumerate_append_eq mapThrowing_append a b)
  show ?thesis
    unfolding normalizeImportedElements_def l r
    by (cases ?A; cases ?B) simp_all
qed

lemma normalizeEntry_unknown_kind:
  "getProp (JObj props) ''kind'' \<noteq> JStr ''arrow-curve'' \<Longrightarrow>
   getProp (JObj props) ''kind'' \<noteq> JStr ''arrow-straight'' \<Longrightarrow>
   normalizeEntry coerce newId (JObj props) = Inr (JObj props)"
  by (simp add: normalizeEntry_def)

lemma normalize_passes_unknown_kind:
  assumes "JObj props \<in> set raw"
    and "getProp (JObj props) ''kind'' \<noteq> JStr ''arrow-curve''"
    and "getProp (JObj props) ''kind'' \<noteq> JStr ''arrow-straight''"
    and "normalizeImportedElements coerce uuidv4 raw = Inr out"
  shows "JObj props \<in> set out"
proof -
  let ?g = "\<lambda>v. JObj (case cloneElJs v of Inr (JObj props) \<Rightarrow> props | _ \<Rightarrow> [])"
  from assms(4) obtain entries where m: "mappedEntries coerce uuidv4 raw = Inr entries"
    and out: "out = map ?g (filter truthy entries)"
    by (auto simp: normalize_Inr)
  from assms(1) obtain i where i: "i < length raw" "raw ! i = JObj props"
    by (auto simp: in_set_conv_nth)
  from m have len: "length entries = length raw"
    and nth: "\<forall>j < length raw. normalizeEntry coerce (uuidv4 j) (raw ! j) = Inr (entries ! j)"
    unfolding mappedEntries_def by (auto dest!: mapThrowing_Inr simp: nth_enumerate_eq)
  from nth i have "normalizeEntry coerce (uuidv4 i) (JObj props) = Inr (entries ! i)"
    by auto
  with normalizeEntry_unknown_kind [OF assms(2,3), of coerce "uuidv4 i"]
  have "entries ! i = JObj props" by simp
  with i(1) len have "JObj props \<in> set entries" by (metis nth_mem)
  then have "JObj props \<in> set (filter truthy entries)" by simp
  moreover have "?g (JObj props) = JObj props"
    using assms(2) by (simp add: cloneElJs_def nullish_def)
  ultimately show ?thesis unfolding out by (metis (no_types, lifting) image_eqI set_map)
qed

subsection \<open>C10: entries that are not objects are dropped\<close>

text \<open>
  C10: an entry that is \<^verbatim>\<open>null\<close> or not of type \<^verbatim>\<open>"object"\<close> is dropped, for every input
  array: the call behaves as on the array without that entry (the fresh identifiers being
  handed to the same entries).  Whenever the call returns, every element of its output is
  an object, and every object entry whose \<^verbatim>\<open>kind\<close> is neither \<^verbatim>\<open>"arrow-curve"\<close> nor
  \<^verbatim>\<open>"arrow-straight"\<close> is in the output unchanged.  The call returns whenever no conversion
  \<^verbatim>\<open>Number(...)\<close> throws.
\<close>

theorem normalize_drops_non_objects:
  "(v = JNull \<or> typeOf v \<noteq> ''object'' \<longrightarrow>
      normalizeImportedElements coerce uuidv4 (xs @ v # ys) =
      normalizeImportedElements coerce
        (\<lambda>i. if i < length xs then uuidv4 i else uuidv4 (Suc i)) (xs @ ys)) \<and>
   (normalizeImportedElements coerce uuidv4 raw = Inr out \<longrightarrow>
      (\<forall>e \<in> set out. \<exists>props. e = JObj props) \<and>
      (\<forall>props. JObj props \<in> set raw \<longrightarrow>
         getProp (JObj props) ''kind'' \<noteq> JStr ''arrow-curve'' \<longrightarrow>
         getProp (JObj props) ''kind'' \<noteq> JStr ''arrow-straight'' \<longrightarrow>
         JObj props \<in> set out)) \<and>
   ((\<forall>w. \<exists>n. coerce w = Inr n) \<longrightarrow>
      (\<exists>out. normalizeImportedElements coerce uuidv4 raw = Inr out))"
  using normalize_drop [of v coerce uuidv4 xs ys]
    normalize_objects [of coerce uuidv4 raw out]
    normalize_passes_unknown_kind [of _ raw coerce uuidv4 out]
    normalize_returns [of coerce uuidv4 raw]
  by blast

theorem normalize_drops_non_objects_witness:
  "normalizeImportedElements (\<lambda>v. Inr NaN) (\<lambda>i. ''fresh'')
       [JNull, JNum 5, zoneJs, JStr ''player'', JBool True]
     = Inr [zoneJs] \<and>
   zoneJs \<in> set [JNull, JNum 5, zoneJs, JStr ''player'', JBool True] \<and>
   getProp zoneJs ''kind'' = JStr ''zone'' \<and>
   typeOf (JNum 5) \<noteq> ''object'' \<and>
   normalizeImportedElements (\<lambda>v. Inr NaN) (\<lambda>i. ''fresh'') ([zoneJs] @ JNum 5 # [JNull])
     = normalizeImportedElements (\<lambda>v. Inr NaN) (\<lambda>i. ''fresh'') ([zoneJs] @ [JNull]) \<and>
   (\<forall>w. \<exists>n. (\<lambda>v. Inr NaN :: js_error + jsnumber) w = Inr n)"
proof -
  let ?raw = "[JNull, JNum 5, zoneJs, JStr ''player'', JBool True]"
  have ev: "normalizeImportedElements (\<lambda>v. Inr NaN) (\<lambda>i. ''fresh'') ?raw = Inr [zoneJs]"
    by (simp add: normalizeImportedElements_def mappedEntries_def normalizeEntry_def
        cloneElementsJs_def cloneElJs_def nullish_def zoneJs_def)
  have k: "getProp zoneJs ''kind'' = JStr ''zone''" by (simp add: zoneJs_def)
  have t: "typeOf (JNum 5) \<noteq> ''object''" by simp
  from normalize_drops_non_objects [of "JNum 5" "\<lambda>v. Inr NaN" "\<lambda>i. ''fresh''" "[zoneJs]" "[JNull]"
      ?raw "[zoneJs]"]
    ev k t
  show ?thesis by simp
qed


subsection \<open>C1: the round trip through export and import\<close>

lemma normalizeArrowColor_canonical:
  "canonicalArrowColor c \<Longrightarrow> normalizeArrowColor (JStr c) = c"
  by (auto simp: canonicalArrowColor_def normalizeArrowColor_def)

lemma importedPoint_pointJs:
  "importedPoint coerce (pointJs p) = Inr (Finite (px p), Finite (py p))"
  by (simp add: importedPoint_def pointJs_def optProp_def nullish_def)

lemma importedPoints_pointJs: "importedPoints coerce (map pointJs ps) = Inr ps"
proof -
  have "mapThrowing (importedPoint coerce) (map pointJs ps)
      = Inr (map (\<lambda>p. (Finite (px p), Finite (py p))) ps)"
    by (induction ps) (simp_all add: importedPoint_pointJs)
  moreover have "map (\<lambda>(a, b). \<lparr>px = finiteValue a, py = finiteValue b\<rparr>)
      (filter (\<lambda>(a, b). isFinite a \<and> isFinite b) (map (\<lambda>p. (Finite (px p), Finite (py p))) ps)) = ps"
    by (induction ps) simp_all
  ultimately show ?thesis by (simp add: importedPoints_def)
qed

lemma toJson_truthy: "truthy (toJson e)"
  by (cases e) simp_all

lemma normalizeEntry_toJson:
  assumes "wellFormedEl e"
  shows "normalizeEntry coerce newId (toJson e) = Inr (toJson (reprunedEl e))"
proof (cases e)
  case (Player p)
  then show ?thesis by (simp add: normalizeEntry_def)
next
  case (Ball b)
  then show ?thesis by (simp add: normalizeEntry_def)
next
  case (ArrowStraight a)
  with assms show ?thesis
    by (simp add: normalizeEntry_def withId_def nullish_def normalizeArrowColor_canonical)
next
  case (ArrowCurve c)
  with assms have len: "length (cv_points c) \<ge> 2" and col: "canonicalArrowColor (cv_color c)"
    by auto
  from len have "length (prunePoints (cv_points c) CURVE_POINT_EPSILON) \<ge> 2"
    by (rule prunePoints_length_ge2)
  then have kept: "\<not> length (prunePoints (cv_points c) CURVE_POINT_EPSILON) < 2" by simp
  show ?thesis using ArrowCurve len kept
    by (simp add: normalizeEntry_def importedPoints_pointJs curveJs_def withId_def nullish_def
        normalizeArrowColor_canonical [OF col])
qed

lemma mappedEntries_toJson:
  assumes "list_all wellFormedEl els"
  shows "mappedEntries coerce uuidv4 (map toJson els) = Inr (map toJson (map reprunedEl els))"
proof -
  have "mapThrowing (\<lambda>(i, el). normalizeEntry coerce (uuidv4 i) el) (enumerate n (map toJson els))
      = Inr (map toJson (map reprunedEl els))" for n
    using assms
  proof (induction els arbitrary: n)
    case Nil
    show ?case by simp
  next
    case (Cons e els)
    then have "wellFormedEl e" and "list_all wellFormedEl els" by simp_all
    with Cons.IH [of "Suc n"] show ?case by (simp add: normalizeEntry_toJson)
  qed
  then show ?thesis by (simp add: mappedEntries_def)
qed

lemma cloneElJs_toJson: "cloneElJs (toJson e) = Inr (toJson (cloneEl e))"
proof (cases e)
  case (ArrowCurve c)
  then show ?thesis
    by (simp add: cloneElJs_def nullish_def clonePoints_pointJs cloneEl_same)
qed (simp_all add: cloneElJs_def nullish_def)

lemma cloneElementsJs_toJson:
  "cloneElementsJs (map toJson els) = Inr (map toJson (cloneElements els))"
  by (induction els) (simp_all add: cloneElementsJs_def cloneElements_def cloneElJs_toJson)

lemma filter_truthy_toJson: "filter truthy (map toJson els) = map toJson els"
  by (induction els) (simp_all add: toJson_truthy)

lemma normalize_toJson:
  assumes "list_all wellFormedEl els"
  shows "normalizeImportedElements coerce uuidv4 (map toJson els)
     = Inr (map toJson (map reprunedEl els))"
  using mappedEntries_toJson [OF assms, of coerce uuidv4]
    filter_truthy_toJson [of "map reprunedEl els"]
    cloneElementsJs_toJson [of "map reprunedEl els"]
  by (simp add: normalizeImportedElements_def cloneElements_same)

lemma pointJs_inj: "map pointJs ps = map pointJs qs \<Longrightarrow> ps = qs"
proof (induction ps arbitrary: qs)
  case Nil
  then show ?case by simp
next
  case (Cons p ps)
  then obtain q qs' where q: "qs = q # qs'" by (cases qs) auto
  with Cons.prems have h: "pointJs p = pointJs q" and t: "map pointJs ps = map pointJs qs'"
    by simp_all
  from h have "px p = px q \<and> py p = py q" by (simp add: pointJs_def)
  then have "p = q" by simp
  moreover from t have "ps = qs'" by (rule Cons.IH)
  ultimately show ?case using q by simp
qed

lemma reprunedEl_same_iff:
  "wellFormedEl e \<Longrightarrow> (toJson (reprunedEl e) = toJson e) = settledEl e"
proof (cases e)
  case (ArrowCurve c)
  assume "wellFormedEl e"
  with ArrowCurve have len: "length (cv_points c) \<ge> 2" by simp
  have "(map pointJs (prunePoints (cv_points c) CURVE_POINT_EPSILON) = map pointJs (cv_points c))
      = (prunePoints (cv_points c) CURVE_POINT_EPSILON = cv_points c)"
    using pointJs_inj by auto
  also have "\<dots> = (length (cv_points c) \<le> 2 \<or> spaced CURVE_POINT_EPSILON (cv_points c))"
    by (rule prunePoints_fixed_iff)
  finally show ?thesis using ArrowCurve len by auto
qed simp_all

lemma repruned_all_same_iff:
  "list_all wellFormedEl els \<Longrightarrow>
   (map toJson (map reprunedEl els) = map toJson els) = list_all settledEl els"
proof (induction els)
  case Nil
  show ?case by simp
next
  case (Cons e els)
  then have "wellFormedEl e" and "list_all wellFormedEl els" by simp_all
  with Cons.IH reprunedEl_same_iff [of e] show ?case by simp
qed

text \<open>
  The points of \<open>looseCurve\<close> are themselves an output of \<open>prunePoints\<close>, so a drawn
  curve can carry them.
\<close>

lemma looseCurve_from_prunePoints:
  "prunePoints [\<lparr>px = 0, py = 0\<rparr>, \<lparr>px = 1, py = 0\<rparr>, \<lparr>px = 1/2, py = 0\<rparr>, \<lparr>px = 3, py = 0\<rparr>]
      CURVE_POINT_EPSILON
    = [\<lparr>px = 0, py = 0\<rparr>, \<lparr>px = 1/2, py = 0\<rparr>, \<lparr>px = 3, py = 0\<rparr>]"
  by (simp add: prune_eval)

text \<open>
  C1 claims that for every board of well-formed elements the normalized parse of the
  exported elements equals the clone of the elements.  The normalizer simplifies the
  points of every curve again, and simplification is not idempotent (see C3), so a curve
  whose stored points still contain a close pair comes back changed.  Counterexample to
  C1: a board with a player and a yellow curve through \<open>(0,0), (0.5,0), (3,0)\<close>; the
  curve is imported with the points \<open>(0.5,0), (3,0)\<close>.
\<close>

theorem import_round_trip_fails:
  "list_all wellFormedEl [demoPlayer, looseCurve] \<and>
   normalizeImportedElements (\<lambda>v. Inr NaN) (\<lambda>i. ''fresh'') (map toJson [demoPlayer, looseCurve])
     = Inr [toJson demoPlayer,
            toJson (ArrowCurve \<lparr>cv_id = ''c2'',
               cv_points = [\<lparr>px = 1/2, py = 0\<rparr>, \<lparr>px = 3, py = 0\<rparr>],
               cv_color = ''yellow'', cv_dashed = False\<rparr>)] \<and>
   normalizeImportedElements (\<lambda>v. Inr NaN) (\<lambda>i. ''fresh'') (map toJson [demoPlayer, looseCurve])
     \<noteq> Inr (map toJson (cloneElements [demoPlayer, looseCurve]))"
  by (simp add: normalizeImportedElements_def mappedEntries_def normalizeEntry_def
      cloneElementsJs_def cloneElJs_def nullish_def demoPlayer_def looseCurve_def
      canonicalArrowColor_def importedPoints_def importedPoint_def optProp_def pointJs_def prune_eval
      curveJs_def withId_def normalizeArrowColor_def clonePointJs_def optField_def
      cloneElements_def)

text \<open>
  C1 (amended): for every board whose elements are all well-formed, the normalized parse
  of the exported elements equals the clone of the elements exactly when every curve of
  the board has two points or has each point farther than epsilon \<open>0.75\<close> from its
  predecessor.  (In general the result is the clone with each curve simplified once
  more, lemma \<open>normalize_toJson\<close>.)
\<close>

theorem import_round_trip_iff:
  "list_all wellFormedEl els \<Longrightarrow>
   (normalizeImportedElements coerce uuidv4 (map toJson els)
      = Inr (map toJson (cloneElements els)))
   = list_all settledEl els"
proof -
  assume w: "list_all wellFormedEl els"
  have "normalizeImportedElements coerce uuidv4 (map toJson els)
      = Inr (map toJson (map reprunedEl els))"
    by (rule normalize_toJson [OF w])
  then have "(normalizeImportedElements coerce uuidv4 (map toJson els)
      = Inr (map toJson (cloneElements els)))
    = (map toJson (map reprunedEl els) = map toJson els)"
    by (simp only: cloneElements_same sum.inject)
  also have "\<dots> = list_all settledEl els"
    by (rule repruned_all_same_iff [OF w])
  finally show ?thesis .
qed

theorem import_round_trip_iff_witness:
  "list_all wellFormedEl [demoBall, demoPlayer, demoCurve] \<and>
   list_all settledEl [demoBall, demoPlayer, demoCurve] \<and>
   normalizeImportedElements (\<lambda>v. Inr NaN) (\<lambda>i. ''fresh'') (map toJson [demoBall, demoPlayer, demoCurve])
     = Inr (map toJson [demoBall, demoPlayer, demoCurve])"
proof -
  have w: "list_all wellFormedEl [demoBall, demoPlayer, demoCurve]"
    by (simp add: demoBall_def demoPlayer_def demoCurve_def canonicalArrowColor_def)
  have s: "list_all settledEl [demoBall, demoPlayer, demoCurve]"
    by (simp add: demoBall_def demoPlayer_def demoCurve_def)
  have c: "cloneElements [demoBall, demoPlayer, demoCurve] = [demoBall, demoPlayer, demoCurve]"
    by (rule cloneElements_same)
  from import_round_trip_iff [OF w, of "\<lambda>v. Inr NaN" "\<lambda>i. ''fresh''"] w s c show ?thesis by simp
qed


section \<open>Properties of the import and camera handlers\<close>

subsection \<open>C8: a payload that does not parse changes nothing\<close>

lemma importLoad_exception:
  "loadAttempt parse coerce uuidv4 importText s = Inl e \<Longrightarrow>
   importLoad parse coerce uuidv4 importText s = Some (s\<lparr>alerts := alerts s @ [''Invalid JSON'']\<rparr>)"
  by (simp add: importLoad_def)

lemma loadAttempt_parse_failure:
  "parse importText = None \<Longrightarrow> loadAttempt parse coerce uuidv4 importText s = Inl SyntaxError"
  by (simp add: loadAttempt_def)

text \<open>
  C8: when \<^verbatim>\<open>JSON.parse\<close> fails on the import text, the Load handler leaves the elements,
  the history, the camera, the selection and the dialog as they were, and shows the notice
  \<^verbatim>\<open>"Invalid JSON"\<close>.
\<close>

theorem import_parse_failure_atomic:
  "parse importText = None \<Longrightarrow>
   (\<exists>s'. importLoad parse coerce uuidv4 importText s = Some s' \<and>
         elements s' = elements s \<and> history s' = history s \<and> camera s' = camera s \<and>
         selectedId s' = selectedId s \<and> isUndoing s' = isUndoing s \<and>
         importDialogOpen s' = importDialogOpen s \<and>
         alerts s' = alerts s @ [''Invalid JSON''])"
  by (simp add: importLoad_def loadAttempt_def)

theorem import_parse_failure_atomic_witness:
  "(\<lambda>t. None :: jsval option) ''{not json'' = None \<and>
   importLoad (\<lambda>t. None) (\<lambda>v. Inr NaN) (\<lambda>i. ''fresh'') ''{not json'' threeState
     = Some (threeState\<lparr>alerts := [''Invalid JSON'']\<rparr>) \<and>
   elements (threeState\<lparr>alerts := [''Invalid JSON'']\<rparr>) = [demoBall, demoPlayer, demoCurve]"
  using import_parse_failure_atomic [of "\<lambda>t. None" "''{not json''" "\<lambda>v. Inr NaN" "\<lambda>i. ''fresh''" threeState]
  by (simp add: importLoad_def loadAttempt_def threeState_def demoState_def)

text \<open>
  The other exceptions of the \<^verbatim>\<open>try\<close> block are caught in the same way, before any state
  update: for instance an \<^verbatim>\<open>elements\<close> property that is not an array.
\<close>

lemma loadAttempt_not_array:
  "parse importText = Some parsed \<Longrightarrow> \<not> nullish (getProp parsed ''elements'') \<Longrightarrow>
   \<not> isArray (getProp parsed ''elements'') \<Longrightarrow>
   loadAttempt parse coerce uuidv4 importText s = Inl TypeError"
  by (cases "getProp parsed ''elements''") (simp_all add: loadAttempt_def orDefault_def)

subsection \<open>C2: the range of the camera scale\<close>

text \<open>
  The wheel handler clamps the new scale to \<open>[0.2, 4]\<close>, and the digit keys select one of
  five presets inside that interval.
\<close>

lemma clamp_range: "a \<le> b \<Longrightarrow> a \<le> clamp v a b \<and> clamp v a b \<le> b"
  by (simp add: clamp_def)

lemma cameraZoomTo_scale: "cam_scale (cameraZoomTo cam anchor newScale vp) = newScale"
  by (simp add: cameraZoomTo_def Let_def)

lemma handleWheel_scale:
  "pointer = Some p \<Longrightarrow>
   0.2 \<le> cam_scale (camera (handleWheel pointer deltaY vp s)) \<and>
   cam_scale (camera (handleWheel pointer deltaY vp s)) \<le> 4"
  by (simp add: handleWheel_def Let_def cameraZoomTo_scale clamp_def)

lemma presetZoom_scale:
  assumes "presetZoom key stageExists vp s = Some s'"
  shows "s' = s \<or> cam_scale (camera s') \<in> {1.25, 1.5, 2, 2.25, 2.5}"
proof (cases "key \<ge> ''1'' \<and> key \<le> ''5'' \<and> stageExists")
  case False
  with assms show ?thesis by (auto simp: presetZoom_def split: if_splits)
next
  case True
  with assms obtain newScale where m: "map_of scaleShortcut key = Some newScale"
    and s': "s' = s\<lparr>camera := cameraZoomTo (camera s) \<lparr>px = vp_w vp / 2, py = vp_h vp / 2\<rparr> newScale vp\<rparr>"
    by (auto simp: presetZoom_def Let_def split: option.splits)
  from m have "newScale \<in> {1.25, 1.5, 2, 2.25, 2.5}"
    by (auto simp: scaleShortcut_def split: if_splits)
  with s' show ?thesis by (simp add: cameraZoomTo_scale)
qed

text \<open>
  C2 claims that every operation that sets the camera scale, the camera replacement on
  import included, leaves the scale in \<open>[0.2, 4]\<close>.  The Load handler installs
  \<^verbatim>\<open>parsed.camera\<close> as it is: importing a payload whose camera has scale \<open>100\<close> sets
  the camera scale to \<open>100\<close>.
\<close>

theorem import_camera_scale_unclamped:
  "importLoad (\<lambda>text. Some oversizedPayload) (\<lambda>v. Inr NaN) (\<lambda>i. ''fresh'') ''payload'' demoState
     = Some (demoState\<lparr>history := [[demoBall]],
               camera := \<lparr>cam_x = 0, cam_y = 0, cam_scale = 100\<rparr>\<rparr>) \<and>
   \<not> (cam_scale \<lparr>cam_x = 0, cam_y = 0, cam_scale = 100\<rparr> \<le> 4)"
  by (simp add: importLoad_def loadAttempt_def oversizedPayload_def orDefault_def nullish_def
      normalizeImportedElements_def mappedEntries_def normalizeEntry_def cloneElementsJs_def
      cloneElJs_def demoBall_def asEl_def readEl_def asBall_def asCamera_def optProp_def
      replaceElements_def pushHistory_def cloneElements_def demoState_def HISTORY_LIMIT_def)


end
